theory Spec2Isabelle
  imports Main "HOL-Library.Word" "HOL-Library.List_Lexorder" "HOL-Library.AList"
begin

unbundle bit_operations_syntax

section \<open>Helpers: phone number validation (internal/pkg/helper/helper.go)\<close>

text \<open>
  Go strings are byte sequences; a string is modelled as a list of 8-bit characters and
  \<open>len\<close> as \<open>length\<close>. \<open>strconv.Atoi\<close> belongs to the Go standard library: on a
  non-empty input it strips one leading sign, requires at least one further byte, folds
  the remaining bytes as decimal digits (\<open>n = n*10 + (ch - '0')\<close>, failing on a byte
  outside \<open>'0'..'9'\<close>) and reports a range error when the value does not fit the 64-bit
  \<open>int\<close>.
\<close>

definition is_digit :: "char \<Rightarrow> bool" where
  "is_digit c = (48 \<le> (of_char c :: nat) \<and> (of_char c :: nat) \<le> 57)"

fun parse_digits :: "nat \<Rightarrow> string \<Rightarrow> nat option" where
  "parse_digits n [] = Some n"
| "parse_digits n (c # cs) =
     (if is_digit c then parse_digits (n * 10 + ((of_char c :: nat) - 48)) cs else None)"

definition strconv_Atoi :: "string \<Rightarrow> int option" where
  "strconv_Atoi s =
     (case s of
        [] \<Rightarrow> None
      | c # cs \<Rightarrow>
          (let body = (if c = CHR ''-'' \<or> c = CHR ''+'' then cs else s) in
           if body = [] then None
           else (case parse_digits 0 body of
                   None \<Rightarrow> None
                 | Some n \<Rightarrow>
                     (let v = (if c = CHR ''-'' then - int n else int n) in
                      if - (2 ^ 63) \<le> v \<and> v < 2 ^ 63 then Some v else None))))"

definition ValidatePhoneNumber :: "string \<Rightarrow> bool" where
  "ValidatePhoneNumber phoneNumber =
     (if length phoneNumber \<noteq> 13 then False
      else if take 4 phoneNumber \<noteq> ''+998'' then False
      else if strconv_Atoi (drop 4 phoneNumber) = None then False
      else True)"

text \<open>The shape the specification describes: an optional sign followed by decimal digits.\<close>

definition all_digits :: "string \<Rightarrow> bool" where
  "all_digits s = (s \<noteq> [] \<and> list_all is_digit s)"

definition signed_decimal :: "string \<Rightarrow> bool" where
  "signed_decimal s =
     (case s of
        [] \<Rightarrow> False
      | c # cs \<Rightarrow> if c = CHR ''-'' \<or> c = CHR ''+'' then all_digits cs else all_digits s)"

section \<open>Claims extractor (internal/pkg/token/token.go)\<close>

text \<open>
  \<open>jwt.Parse\<close> and its error type belong to the jwt-go library. A parse either yields a
  token, whose claims are a \<open>MapClaims\<close> or not, or fails with an error that is a
  \<open>*ValidationError\<close> carrying a \<open>uint32\<close> bit mask, or some other error value. The
  flags are the library's constants \<open>1 << iota\<close>. Only string-valued claims are told
  apart from the others, as the middleware does.
\<close>

datatype claim_val = ClaimStr string | ClaimOther

type_synonym claims = "string \<Rightarrow> claim_val option"

datatype jwt_error = ValidationError "32 word" | OtherError

datatype jwt_parse = Parsed "claims option" | ParseFailed jwt_error

definition ValidationErrorMalformed :: "32 word" where
  "ValidationErrorMalformed = push_bit 0 1"

definition ValidationErrorUnverifiable :: "32 word" where
  "ValidationErrorUnverifiable = push_bit 1 1"

definition ValidationErrorSignatureInvalid :: "32 word" where
  "ValidationErrorSignatureInvalid = push_bit 2 1"

definition ValidationErrorExpired :: "32 word" where
  "ValidationErrorExpired = push_bit 4 1"

definition ValidationErrorNotValidYet :: "32 word" where
  "ValidationErrorNotValidYet = push_bit 7 1"

datatype token_error =
    ErrValidationErrorMalformed
  | ErrTokenExpiredOrNotValidYet
  | CouldntHandle jwt_error

text \<open>
  \<open>ParseJwtToken\<close>: the first argument stands for \<open>jwt.Parse\<close> together with the key
  function handed to it. A nil claims map is the empty map.
\<close>

definition ParseJwtToken ::
  "(string \<Rightarrow> string \<Rightarrow> jwt_parse) \<Rightarrow> string \<Rightarrow> string \<Rightarrow> token_error + claims" where
  "ParseJwtToken jwt_Parse tokenStr jwtsecret =
     (case jwt_Parse tokenStr jwtsecret of
        ParseFailed err \<Rightarrow>
          (case err of
             ValidationError ve \<Rightarrow>
               if ve AND ValidationErrorMalformed \<noteq> 0 then Inl ErrValidationErrorMalformed
               else if ve AND (ValidationErrorExpired OR ValidationErrorNotValidYet) \<noteq> 0
                 then Inl ErrTokenExpiredOrNotValidYet
               else Inl (CouldntHandle err)
           | OtherError \<Rightarrow> Inl (CouldntHandle err))
      | Parsed mapClaims \<Rightarrow>
          (case mapClaims of Some m \<Rightarrow> Inr m | None \<Rightarrow> Inr Map.empty))"

text \<open>What the library reports about a failed parse: whether a flag is set in the error.\<close>

fun flag_set :: "jwt_error \<Rightarrow> 32 word \<Rightarrow> bool" where
  "flag_set (ValidationError ve) f = (ve AND f \<noteq> 0)"
| "flag_set OtherError f = False"

definition sig_invalid_parser :: "string \<Rightarrow> string \<Rightarrow> jwt_parse" where
  "sig_invalid_parser tokenStr key = ParseFailed (ValidationError ValidationErrorSignatureInvalid)"

definition expired_parser :: "string \<Rightarrow> string \<Rightarrow> jwt_parse" where
  "expired_parser tokenStr key = ParseFailed (ValidationError ValidationErrorExpired)"

section \<open>Authentication middleware (api/middleware, AuthContext)\<close>

text \<open>
  The request as the middleware reads it: the \<open>token\<close> query parameter and the
  \<open>Authorization\<close> header, each empty when absent. Of the gin context the model keeps
  how often \<open>c.Next()\<close> ran the downstream handlers, whether the request was aborted,
  and the keys stored with \<open>c.Set\<close>.
\<close>

record request =
  query_token :: string
  authorization :: string

record gin_context =
  next_calls :: nat
  aborted :: bool
  keys :: "string \<Rightarrow> (string \<Rightarrow> string option) option"

definition c_Next :: "gin_context \<Rightarrow> gin_context" where
  "c_Next c = c\<lparr>next_calls := Suc (next_calls c)\<rparr>"

definition c_Set :: "string \<Rightarrow> (string \<Rightarrow> string option) \<Rightarrow> gin_context \<Rightarrow> gin_context" where
  "c_Set key v c = c\<lparr>keys := (keys c)(key \<mapsto> v)\<rparr>"

fun strings_Contains :: "string \<Rightarrow> string \<Rightarrow> bool" where
  "strings_Contains [] substr = (substr = [])"
| "strings_Contains (c # cs) substr =
     (take (length substr) (c # cs) = substr \<or> strings_Contains cs substr)"

definition extract_token :: "request \<Rightarrow> string" where
  "extract_token req =
     (if length (query_token req) = 0 then
        (let authHeader = authorization req in
         if length authHeader > 7 then
           (if strings_Contains authHeader ''Bearer '' then drop 7 authHeader else authHeader)
         else query_token req)
      else query_token req)"

definition authData_of :: "claims \<Rightarrow> (string \<Rightarrow> string option)" where
  "authData_of cl = (\<lambda>key. case cl key of Some (ClaimStr valStr) \<Rightarrow> Some valStr | _ \<Rightarrow> None)"

definition AuthContext ::
  "(string \<Rightarrow> string \<Rightarrow> jwt_parse) \<Rightarrow> string \<Rightarrow> string \<Rightarrow> request \<Rightarrow> gin_context \<Rightarrow> gin_context" where
  "AuthContext jwt_Parse RequestIDHeader jwtSecret req c =
     (let token = extract_token req in
      if token = [] then c_Next c
      else (case ParseJwtToken jwt_Parse token jwtSecret of
              Inl err \<Rightarrow> c_Next c
            | Inr cl \<Rightarrow>
                if cl \<noteq> Map.empty then c_Next (c_Set RequestIDHeader (authData_of cl) c)
                else c_Next c))"

definition bearer_request :: request where
  "bearer_request = \<lparr>query_token = [], authorization = ''Bearer abc.def.ghi''\<rparr>"

definition fresh_context :: gin_context where
  "fresh_context = \<lparr>next_calls = 0, aborted = False, keys = Map.empty\<rparr>"

section \<open>The relational store\<close>

text \<open>
  The repositories talk to PostgreSQL through the squirrel statement builder and pgx. The
  store is modelled as tables of rows; a row maps a column name to its value, \<open>VNull\<close>
  being SQL NULL. A \<open>time.Time\<close> is an integer instant, a \<open>float64\<close> is carried as its
  64 bits. The store also records which statements were executed, in order.
\<close>

datatype sqlval = VNull | VInt int | VStr string | VTime int | VFloat "64 word" | VBool bool

type_synonym row = "string \<Rightarrow> sqlval option"

type_synonym clauses = "(string \<times> sqlval) list"

datatype stmt = UpdateStmt string | SelectStmt string | CountStmt string

record db =
  tables :: "string \<Rightarrow> row list"
  executed :: "stmt list"

text \<open>The squirrel select builder, reduced to what the repositories set on it.\<close>

datatype cond = Eq string string | OrILike "(string \<times> string) list"

record select_builder =
  sel_columns :: "string list"
  sel_from :: string
  sel_where :: "cond list"
  sel_order :: "string list"
  sel_limit :: "nat option"
  sel_offset :: "nat option"

definition Select :: "string list \<Rightarrow> string \<Rightarrow> select_builder" where
  "Select cols tbl =
     \<lparr>sel_columns = cols, sel_from = tbl, sel_where = [], sel_order = [],
      sel_limit = None, sel_offset = None\<rparr>"

definition Where :: "cond \<Rightarrow> select_builder \<Rightarrow> select_builder" where
  "Where c b = b\<lparr>sel_where := sel_where b @ [c]\<rparr>"

definition OrderBy :: "string list \<Rightarrow> select_builder \<Rightarrow> select_builder" where
  "OrderBy cols b = b\<lparr>sel_order := sel_order b @ cols\<rparr>"

definition Limit :: "nat \<Rightarrow> select_builder \<Rightarrow> select_builder" where
  "Limit n b = b\<lparr>sel_limit := Some n\<rparr>"

definition Offset :: "nat \<Rightarrow> select_builder \<Rightarrow> select_builder" where
  "Offset n b = b\<lparr>sel_offset := Some n\<rparr>"

text \<open>
  A failure reported by the driver: a \<open>*pgconn.PgError\<close> of the package
  \<open>github.com/jackc/pgconn\<close> (code, text), a PostgreSQL error as the pgx v5 pool itself
  reports it, which is of the pool's own error type (code, text), no rows, or another.
\<close>

datatype db_failure =
    PgError string string
  | PoolPgError string string
  | NoRows
  | OtherFailure string

text \<open>
  What lies outside the program: the clock, the failures the store may report at each
  step, how PostgreSQL compares a column with a text parameter
  (\<open>col = $n\<close>, \<open>col ILIKE $n\<close>), and the order in which it returns the rows of a
  statement that the statement's \<open>ORDER BY\<close> does not tell apart. SQL leaves that order
  open for each statement on its own; \<open>tie_rank\<close> is the store's choice for the
  statement given: of rows with equal sort keys, the one of lower rank comes first.
\<close>

record env =
  now :: int
  begin_error :: "string option"
  exec_error :: "db_failure option"
  commit_error :: "string option"
  query_error :: "db_failure option"
  scan_error :: "string option"
  count_error :: "string option"
  eq_text :: "sqlval \<Rightarrow> string \<Rightarrow> bool"
  ilike :: "sqlval \<Rightarrow> string \<Rightarrow> bool"
  tie_rank :: "select_builder \<Rightarrow> row \<Rightarrow> nat"

datatype error =
    RequestNil
  | IDRequired
  | InvalidPhoneNumberFormat
  | NoFieldsToUpdate
  | NotFoundWithID string int
  | TransactionStartFailed string
  | CommitFailed string
  | ErrorConflict
  | ErrNoRows
  | StoreError string
  | FilterRequired
  | QueryError string
  | ScanError string
  | CountQueryError string

text \<open>
  \<open>Postgres.Error\<close> tests the error with \<open>errors.As\<close> against the \<open>PgError\<close> of
  \<open>github.com/jackc/pgconn\<close>: such an error with code 23505 becomes the conflict error.
  An error of the pgx v5 pool is of another type, so it passes unchanged whatever its
  code, as does the rest.
\<close>

fun db_Error :: "db_failure \<Rightarrow> error" where
  "db_Error (PgError code txt) = (if code = ''23505'' then ErrorConflict else StoreError txt)"
| "db_Error (PoolPgError code txt) = StoreError txt"
| "db_Error NoRows = ErrNoRows"
| "db_Error (OtherFailure txt) = StoreError txt"

definition row_id :: "row \<Rightarrow> sqlval option" where
  "row_id r = r ''id''"

text \<open>\<open>UPDATE tbl SET clauses WHERE id = $n\<close>: the rows it touches and what it leaves.\<close>

definition rows_affected :: "string \<Rightarrow> int \<Rightarrow> db \<Rightarrow> nat" where
  "rows_affected tbl i d = length (filter (\<lambda>r. row_id r = Some (VInt i)) (tables d tbl))"

definition sql_update :: "string \<Rightarrow> clauses \<Rightarrow> int \<Rightarrow> db \<Rightarrow> db" where
  "sql_update tbl cl i d =
     d\<lparr>tables := (tables d)(tbl :=
          map (\<lambda>r. if row_id r = Some (VInt i) then r ++ map_of cl else r) (tables d tbl))\<rparr>"

definition log_stmt :: "stmt \<Rightarrow> db \<Rightarrow> db" where
  "log_stmt s d = d\<lparr>executed := executed d @ [s]\<rparr>"

section \<open>Repository Update (internal/service)\<close>

text \<open>
  Every \<open>Update\<close> ends the same way once its column set is built: begin a transaction,
  execute the statement, fail when no row was affected, commit. The deferred rollback
  undoes the statement on every error return, so the tables are then those before the
  call; the statement stays in the record of executed statements. The notification
  repository of the sources is not one of the specification's entities and is not
  registered with the router; the six repositories of the data model are covered.
\<close>

definition exec_update :: "env \<Rightarrow> string \<Rightarrow> string \<Rightarrow> clauses \<Rightarrow> int \<Rightarrow> db \<Rightarrow> error option \<times> db" where
  "exec_update e tbl noun cl i d =
     (case begin_error e of
        Some txt \<Rightarrow> (Some (TransactionStartFailed txt), d)
      | None \<Rightarrow>
          (case exec_error e of
             Some f \<Rightarrow> (Some (db_Error f), log_stmt (UpdateStmt tbl) d)
           | None \<Rightarrow>
               if rows_affected tbl i d = 0
               then (Some (NotFoundWithID noun i), log_stmt (UpdateStmt tbl) d)
               else (case commit_error e of
                       Some txt \<Rightarrow> (Some (CommitFailed txt), log_stmt (UpdateStmt tbl) d)
                     | None \<Rightarrow> (None, log_stmt (UpdateStmt tbl) (sql_update tbl cl i d)))))"

text \<open>\<open>if req.F != nil { clauses[col] = *req.F }\<close> on the column map.\<close>

definition set_clause :: "string \<Rightarrow> sqlval option \<Rightarrow> clauses \<Rightarrow> clauses" where
  "set_clause col v cl = (case v of None \<Rightarrow> cl | Some x \<Rightarrow> AList.update col x cl)"

record UpdateUserRequest =
  user_ID :: int
  user_FirstName :: "string option"
  user_LastName :: "string option"
  user_Role :: "string option"
  user_Email :: "string option"
  user_Phone :: "string option"
  user_PhotoURL :: "string option"
  user_Bio :: "string option"
  user_HashedPassword :: "string option"
  user_HashedRefreshToken :: "string option"

record UpdateTaskRequest =
  task_ID :: int
  task_AssignedTo :: "int option"
  task_AdminID :: "int option"
  task_Title :: "string option"
  task_Description :: "string option"
  task_Status :: "string option"
  task_Priority :: "string option"
  task_DueDate :: "int option"

text \<open>
  Modelled from the spec: the declaration of \<open>entity.UpdateAttendanceRequest\<close> is not among
  the sources; its fields are those \<open>attendanceRepo.Update\<close> reads (identifier, user, date,
  in-time, out-time, status), each optional one a pointer.
\<close>

record UpdateAttendanceRequest =
  att_ID :: int
  att_UserID :: "int option"
  att_Date :: "int option"
  att_InTime :: "int option"
  att_OutTime :: "int option"
  att_Status :: "string option"

record UpdateSalaryRequest =
  sal_ID :: int
  sal_Amount :: "64 word option"
  sal_UserID :: "int option"
  sal_AdminID :: "int option"
  sal_UpdaterAdminID :: "int option"
  sal_PayDate :: "int option"
  sal_Currency :: "string option"
  sal_Status :: "string option"

record UpdateBonusRequest =
  bonus_ID :: int
  bonus_SuperAdminID :: "int option"
  bonus_UserID :: "int option"
  bonus_Amount :: "64 word option"
  bonus_Currency :: "string option"
  bonus_Reason :: "string option"

record UpdateFileRequest =
  file_ID :: int
  file_Name :: "string option"
  file_TaskID :: "int option"

definition userRepo_clauses :: "int \<Rightarrow> UpdateUserRequest \<Rightarrow> error + clauses" where
  "userRepo_clauses t req =
     (let cl = [(''updated_at'', VTime t)];
          cl = set_clause ''first_name'' (map_option VStr (user_FirstName req)) cl;
          cl = set_clause ''last_name'' (map_option VStr (user_LastName req)) cl;
          cl = set_clause ''role'' (map_option VStr (user_Role req)) cl;
          cl = set_clause ''email'' (map_option VStr (user_Email req)) cl
      in if user_Phone req \<noteq> None \<and> \<not> ValidatePhoneNumber (the (user_Phone req))
         then Inl InvalidPhoneNumberFormat
         else
           (let cl = set_clause ''phone'' (map_option VStr (user_Phone req)) cl;
                cl = set_clause ''photo_url'' (map_option VStr (user_PhotoURL req)) cl;
                cl = set_clause ''bio'' (map_option VStr (user_Bio req)) cl;
                cl = set_clause ''hashed_password'' (map_option VStr (user_HashedPassword req)) cl;
                cl = set_clause ''hashed_refresh_token''
                       (map_option VStr (user_HashedRefreshToken req)) cl
            in Inr cl))"

definition userRepo_Update :: "env \<Rightarrow> UpdateUserRequest option \<Rightarrow> db \<Rightarrow> error option \<times> db" where
  "userRepo_Update e reqp d =
     (case reqp of
        None \<Rightarrow> (Some RequestNil, d)
      | Some req \<Rightarrow>
          if user_ID req = 0 then (Some IDRequired, d)
          else (case userRepo_clauses (now e) req of
                  Inl err \<Rightarrow> (Some err, d)
                | Inr cl \<Rightarrow>
                    if length cl \<le> 1 then (Some NoFieldsToUpdate, d)
                    else exec_update e ''users'' ''user'' cl (user_ID req) d))"

definition taskRepo_clauses :: "int \<Rightarrow> UpdateTaskRequest \<Rightarrow> clauses" where
  "taskRepo_clauses t req =
     (let cl = [(''updated_at'', VTime t)];
          cl = set_clause ''assignedto'' (map_option VInt (task_AssignedTo req)) cl;
          cl = set_clause ''admin_id'' (map_option VInt (task_AdminID req)) cl;
          cl = set_clause ''title'' (map_option VStr (task_Title req)) cl;
          cl = set_clause ''description'' (map_option VStr (task_Description req)) cl;
          cl = set_clause ''status'' (map_option VStr (task_Status req)) cl;
          cl = set_clause ''priority'' (map_option VStr (task_Priority req)) cl;
          cl = set_clause ''duedate'' (map_option VTime (task_DueDate req)) cl
      in cl)"

definition taskRepo_Update :: "env \<Rightarrow> UpdateTaskRequest option \<Rightarrow> db \<Rightarrow> error option \<times> db" where
  "taskRepo_Update e reqp d =
     (case reqp of
        None \<Rightarrow> (Some RequestNil, d)
      | Some req \<Rightarrow>
          if task_ID req = 0 then (Some IDRequired, d)
          else (let cl = taskRepo_clauses (now e) req in
                if length cl < 2 then (Some NoFieldsToUpdate, d)
                else exec_update e ''tasks'' ''task'' cl (task_ID req) d))"

text \<open>
  The attendance repository always writes \<open>outtime\<close>: the supplied value, or NULL when
  the request has none. Its guard reads the map entry back; a nil entry is NULL here.
\<close>

definition attendanceRepo_clauses :: "int \<Rightarrow> UpdateAttendanceRequest \<Rightarrow> clauses" where
  "attendanceRepo_clauses t req =
     (let cl = [(''updated_at'', VTime t)];
          cl = set_clause ''user_id'' (map_option VInt (att_UserID req)) cl;
          cl = set_clause ''date'' (map_option VTime (att_Date req)) cl;
          cl = set_clause ''intime'' (map_option VTime (att_InTime req)) cl;
          cl = (case att_OutTime req of
                  Some ot \<Rightarrow> AList.update ''outtime'' (VTime ot) cl
                | None \<Rightarrow> AList.update ''outtime'' VNull cl);
          cl = set_clause ''status'' (map_option VStr (att_Status req)) cl
      in cl)"

definition attendanceRepo_Update ::
  "env \<Rightarrow> UpdateAttendanceRequest option \<Rightarrow> db \<Rightarrow> error option \<times> db" where
  "attendanceRepo_Update e reqp d =
     (case reqp of
        None \<Rightarrow> (Some RequestNil, d)
      | Some req \<Rightarrow>
          if att_ID req = 0 then (Some IDRequired, d)
          else (let cl = attendanceRepo_clauses (now e) req in
                if length cl < 2 \<and> (att_OutTime req = None
                     \<and> (map_of cl ''outtime'' = None \<or> map_of cl ''outtime'' = Some VNull))
                then (Some NoFieldsToUpdate, d)
                else exec_update e ''attendances'' ''attendance record'' cl (att_ID req) d))"

definition salaryRepo_clauses :: "int \<Rightarrow> UpdateSalaryRequest \<Rightarrow> clauses" where
  "salaryRepo_clauses t req =
     (let cl = [(''updated_at'', VTime t)];
          cl = set_clause ''amount'' (map_option VFloat (sal_Amount req)) cl;
          cl = set_clause ''user_id'' (map_option VInt (sal_UserID req)) cl;
          cl = set_clause ''admin_id'' (map_option VInt (sal_AdminID req)) cl;
          cl = set_clause ''updateradminid'' (map_option VInt (sal_UpdaterAdminID req)) cl;
          cl = set_clause ''pay_date'' (map_option VTime (sal_PayDate req)) cl;
          cl = set_clause ''currency'' (map_option VStr (sal_Currency req)) cl;
          cl = set_clause ''status'' (map_option VStr (sal_Status req)) cl
      in cl)"

definition salaryRepo_Update :: "env \<Rightarrow> UpdateSalaryRequest option \<Rightarrow> db \<Rightarrow> error option \<times> db" where
  "salaryRepo_Update e reqp d =
     (case reqp of
        None \<Rightarrow> (Some RequestNil, d)
      | Some req \<Rightarrow>
          if sal_ID req = 0 then (Some IDRequired, d)
          else (let cl = salaryRepo_clauses (now e) req in
                if length cl < 2 then (Some NoFieldsToUpdate, d)
                else exec_update e ''salaries'' ''salary'' cl (sal_ID req) d))"

definition bonusesRepo_clauses :: "int \<Rightarrow> UpdateBonusRequest \<Rightarrow> clauses" where
  "bonusesRepo_clauses t req =
     (let cl = [(''updated_at'', VTime t)];
          cl = set_clause ''superadminid'' (map_option VInt (bonus_SuperAdminID req)) cl;
          cl = set_clause ''user_id'' (map_option VInt (bonus_UserID req)) cl;
          cl = set_clause ''amount'' (map_option VFloat (bonus_Amount req)) cl;
          cl = set_clause ''currency'' (map_option VStr (bonus_Currency req)) cl;
          cl = set_clause ''reason'' (map_option VStr (bonus_Reason req)) cl
      in cl)"

definition bonusesRepo_Update :: "env \<Rightarrow> UpdateBonusRequest option \<Rightarrow> db \<Rightarrow> error option \<times> db" where
  "bonusesRepo_Update e reqp d =
     (case reqp of
        None \<Rightarrow> (Some RequestNil, d)
      | Some req \<Rightarrow>
          if bonus_ID req = 0 then (Some IDRequired, d)
          else (let cl = bonusesRepo_clauses (now e) req in
                if length cl \<le> 1 then (Some NoFieldsToUpdate, d)
                else exec_update e ''bonuses'' ''bonus'' cl (bonus_ID req) d))"

definition fileRepo_clauses :: "int \<Rightarrow> UpdateFileRequest \<Rightarrow> clauses" where
  "fileRepo_clauses t req =
     (let cl = [(''updated_at'', VTime t)];
          cl = set_clause ''name'' (map_option VStr (file_Name req)) cl;
          cl = set_clause ''taskid'' (map_option VInt (file_TaskID req)) cl
      in cl)"

definition fileRepo_Update :: "env \<Rightarrow> UpdateFileRequest option \<Rightarrow> db \<Rightarrow> error option \<times> db" where
  "fileRepo_Update e reqp d =
     (case reqp of
        None \<Rightarrow> (Some RequestNil, d)
      | Some req \<Rightarrow>
          if file_ID req = 0 then (Some IDRequired, d)
          else (let cl = fileRepo_clauses (now e) req in
                if length cl \<le> 1 then (Some NoFieldsToUpdate, d)
                else exec_update e ''files'' ''file'' cl (file_ID req) d))"

text \<open>One request type over the six repositories, to state what holds for each of them.\<close>

datatype update_request =
    UserUpdate UpdateUserRequest
  | TaskUpdate UpdateTaskRequest
  | AttendanceUpdate UpdateAttendanceRequest
  | SalaryUpdate UpdateSalaryRequest
  | BonusUpdate UpdateBonusRequest
  | FileUpdate UpdateFileRequest

fun repo_Update :: "env \<Rightarrow> update_request \<Rightarrow> db \<Rightarrow> error option \<times> db" where
  "repo_Update e (UserUpdate req) d = userRepo_Update e (Some req) d"
| "repo_Update e (TaskUpdate req) d = taskRepo_Update e (Some req) d"
| "repo_Update e (AttendanceUpdate req) d = attendanceRepo_Update e (Some req) d"
| "repo_Update e (SalaryUpdate req) d = salaryRepo_Update e (Some req) d"
| "repo_Update e (BonusUpdate req) d = bonusesRepo_Update e (Some req) d"
| "repo_Update e (FileUpdate req) d = fileRepo_Update e (Some req) d"

fun table_of :: "update_request \<Rightarrow> string" where
  "table_of (UserUpdate req) = ''users''"
| "table_of (TaskUpdate req) = ''tasks''"
| "table_of (AttendanceUpdate req) = ''attendances''"
| "table_of (SalaryUpdate req) = ''salaries''"
| "table_of (BonusUpdate req) = ''bonuses''"
| "table_of (FileUpdate req) = ''files''"

fun request_id :: "update_request \<Rightarrow> int" where
  "request_id (UserUpdate req) = user_ID req"
| "request_id (TaskUpdate req) = task_ID req"
| "request_id (AttendanceUpdate req) = att_ID req"
| "request_id (SalaryUpdate req) = sal_ID req"
| "request_id (BonusUpdate req) = bonus_ID req"
| "request_id (FileUpdate req) = file_ID req"

text \<open>
  The specification's reading of a request: its optional fields, each with its column,
  and of these the non-null ones, each with the value supplied.
\<close>

definition field :: "string \<Rightarrow> sqlval option \<Rightarrow> (string \<times> sqlval) list" where
  "field col v = (case v of None \<Rightarrow> [] | Some x \<Rightarrow> [(col, x)])"

fun optional_fields :: "update_request \<Rightarrow> (string \<times> sqlval option) list" where
  "optional_fields (UserUpdate req) =
     [(''first_name'', map_option VStr (user_FirstName req)),
      (''last_name'', map_option VStr (user_LastName req)),
      (''role'', map_option VStr (user_Role req)),
      (''email'', map_option VStr (user_Email req)),
      (''phone'', map_option VStr (user_Phone req)),
      (''photo_url'', map_option VStr (user_PhotoURL req)),
      (''bio'', map_option VStr (user_Bio req)),
      (''hashed_password'', map_option VStr (user_HashedPassword req)),
      (''hashed_refresh_token'', map_option VStr (user_HashedRefreshToken req))]"
| "optional_fields (TaskUpdate req) =
     [(''assignedto'', map_option VInt (task_AssignedTo req)),
      (''admin_id'', map_option VInt (task_AdminID req)),
      (''title'', map_option VStr (task_Title req)),
      (''description'', map_option VStr (task_Description req)),
      (''status'', map_option VStr (task_Status req)),
      (''priority'', map_option VStr (task_Priority req)),
      (''duedate'', map_option VTime (task_DueDate req))]"
| "optional_fields (AttendanceUpdate req) =
     [(''user_id'', map_option VInt (att_UserID req)),
      (''date'', map_option VTime (att_Date req)),
      (''intime'', map_option VTime (att_InTime req)),
      (''outtime'', map_option VTime (att_OutTime req)),
      (''status'', map_option VStr (att_Status req))]"
| "optional_fields (SalaryUpdate req) =
     [(''amount'', map_option VFloat (sal_Amount req)),
      (''user_id'', map_option VInt (sal_UserID req)),
      (''admin_id'', map_option VInt (sal_AdminID req)),
      (''updateradminid'', map_option VInt (sal_UpdaterAdminID req)),
      (''pay_date'', map_option VTime (sal_PayDate req)),
      (''currency'', map_option VStr (sal_Currency req)),
      (''status'', map_option VStr (sal_Status req))]"
| "optional_fields (BonusUpdate req) =
     [(''superadminid'', map_option VInt (bonus_SuperAdminID req)),
      (''user_id'', map_option VInt (bonus_UserID req)),
      (''amount'', map_option VFloat (bonus_Amount req)),
      (''currency'', map_option VStr (bonus_Currency req)),
      (''reason'', map_option VStr (bonus_Reason req))]"
| "optional_fields (FileUpdate req) =
     [(''name'', map_option VStr (file_Name req)),
      (''taskid'', map_option VInt (file_TaskID req))]"

definition non_null :: "(string \<times> sqlval option) list \<Rightarrow> (string \<times> sqlval) list" where
  "non_null fs = concat (map (\<lambda>(col, v). field col v) fs)"

definition supplied :: "update_request \<Rightarrow> (string \<times> sqlval) list" where
  "supplied rq = non_null (optional_fields rq)"

fun phone_ok :: "update_request \<Rightarrow> bool" where
  "phone_ok (UserUpdate req) =
     (case user_Phone req of None \<Rightarrow> True | Some ph \<Rightarrow> ValidatePhoneNumber ph)"
| "phone_ok _ = True"

definition no_fault :: "env \<Rightarrow> bool" where
  "no_fault e = (begin_error e = None \<and> exec_error e = None \<and> commit_error e = None)"

text \<open>
  What "exactly the fields \<open>w\<close> change" says of a row \<open>r\<close> and its successor \<open>r'\<close>:
  the columns of \<open>w\<close> carry the values of \<open>w\<close>, \<open>updated_at\<close> is the current time,
  and \<open>created_at\<close> and every column outside \<open>w\<close> are as before.
\<close>

definition frame_holds :: "env \<Rightarrow> (string \<times> sqlval) list \<Rightarrow> row \<Rightarrow> row \<Rightarrow> bool" where
  "frame_holds e w r r' \<longleftrightarrow>
     (\<forall>(c, v) \<in> set w. r' c = Some v)
     \<and> r' ''updated_at'' = Some (VTime (now e))
     \<and> r' ''created_at'' = r ''created_at''
     \<and> (\<forall>c. c \<notin> fst ` set w \<and> c \<noteq> ''updated_at'' \<longrightarrow> r' c = r c)"

text \<open>
  The columns a repository writes although the request does not supply them: the
  attendance repository nulls \<open>outtime\<close> when the request leaves it out.
\<close>

fun also_written :: "update_request \<Rightarrow> (string \<times> sqlval) list" where
  "also_written (AttendanceUpdate req) =
     (if att_OutTime req = None then [(''outtime'', VNull)] else [])"
| "also_written _ = []"

definition target_row :: "update_request \<Rightarrow> row \<Rightarrow> bool" where
  "target_row rq r = (row_id r = Some (VInt (request_id rq)))"

text \<open>
  The chain of conditional assignments of an \<open>Update\<close>, as a fold over the fields it
  tests, and the fields each repository tests.
\<close>

definition apply_fields :: "(string \<times> sqlval option) list \<Rightarrow> clauses \<Rightarrow> clauses" where
  "apply_fields fs cl = foldl (\<lambda>acc (col, v). set_clause col v acc) cl fs"

fun tested_fields :: "update_request \<Rightarrow> (string \<times> sqlval option) list" where
  "tested_fields (AttendanceUpdate req) =
     [(''user_id'', map_option VInt (att_UserID req)),
      (''date'', map_option VTime (att_Date req)),
      (''intime'', map_option VTime (att_InTime req)),
      (''outtime'', Some (case att_OutTime req of Some ot \<Rightarrow> VTime ot | None \<Rightarrow> VNull)),
      (''status'', map_option VStr (att_Status req))]"
| "tested_fields rq = optional_fields rq"

fun noun_of :: "update_request \<Rightarrow> string" where
  "noun_of (UserUpdate req) = ''user''"
| "noun_of (TaskUpdate req) = ''task''"
| "noun_of (AttendanceUpdate req) = ''attendance record''"
| "noun_of (SalaryUpdate req) = ''salary''"
| "noun_of (BonusUpdate req) = ''bonus''"
| "noun_of (FileUpdate req) = ''file''"

section \<open>Repository Get and List (internal/service)\<close>

text \<open>
  The six repositories' \<open>Get\<close> and \<open>List\<close> differ only in their table, the columns
  they select, the columns they search and the order they ask for; one body is written
  for each operation, over these constants. Filter maps are association lists: Go ranges
  over a map in no fixed order, and the conditions collected are conjoined.
\<close>

datatype entity = User | Task | Attendance | Salary | Bonus | File

fun tableName :: "entity \<Rightarrow> string" where
  "tableName User = ''users''"
| "tableName Task = ''tasks''"
| "tableName Attendance = ''attendances''"
| "tableName Salary = ''salaries''"
| "tableName Bonus = ''bonuses''"
| "tableName File = ''files''"

fun get_columns :: "entity \<Rightarrow> string list" where
  "get_columns User =
     [''id'', ''first_name'', ''last_name'', ''role'', ''email'', ''phone'', ''photo_url'', ''bio'',
      ''hashed_password'', ''hashed_refresh_token'', ''created_at'', ''updated_at'']"
| "get_columns Task =
     [''id'', ''assignedto'', ''admin_id'', ''title'', ''description'', ''status'', ''priority'',
      ''duedate'', ''created_at'', ''updated_at'']"
| "get_columns Attendance =
     [''id'', ''user_id'', ''date'', ''intime'', ''outtime'', ''status'', ''created_at'', ''updated_at'']"
| "get_columns Salary =
     [''id'', ''amount'', ''user_id'', ''admin_id'', ''updateradminid'', ''pay_date'', ''currency'',
      ''status'', ''created_at'', ''updated_at'']"
| "get_columns Bonus =
     [''id'', ''superadminid'', ''user_id'', ''amount'', ''currency'', ''reason'', ''created_at'',
      ''updated_at'']"
| "get_columns File = [''id'', ''name'', ''taskid'', ''created_at'', ''updated_at'']"

fun list_columns :: "entity \<Rightarrow> string list" where
  "list_columns User =
     [''id'', ''first_name'', ''last_name'', ''role'', ''email'', ''phone'', ''photo_url'', ''bio'',
      ''created_at'', ''updated_at'']"
| "list_columns ent = get_columns ent"

fun search_columns :: "entity \<Rightarrow> string list" where
  "search_columns User = [''first_name'', ''last_name'', ''email'', ''phone'']"
| "search_columns Task = [''title'', ''description'', ''status'', ''priority'']"
| "search_columns Attendance = [''status'']"
| "search_columns Salary = [''currency'', ''status'']"
| "search_columns Bonus = [''reason'']"
| "search_columns File = [''name'']"

text \<open>The \<open>OrderBy\<close> argument, as the list of its columns; each is \<open>DESC\<close>.\<close>

fun order_columns :: "entity \<Rightarrow> string list" where
  "order_columns Attendance = [''date'', ''intime'']"
| "order_columns ent = [''created_at'']"

text \<open>
  How the store answers a select: the rows satisfying every condition, ordered
  descending by the order columns, rows with equal keys in the order the store chooses
  for this statement, then cut by offset and limit and projected to the selected columns.
  A statement without order columns gives all its rows the same key. Order columns hold
  instants.
\<close>

fun eval_cond :: "env \<Rightarrow> row \<Rightarrow> cond \<Rightarrow> bool" where
  "eval_cond e r (Eq col v) = (case r col of Some x \<Rightarrow> eq_text e x v | None \<Rightarrow> False)"
| "eval_cond e r (OrILike ps) =
     list_ex (\<lambda>(col, pat). case r col of Some x \<Rightarrow> ilike e x pat | None \<Rightarrow> False) ps"

definition matches :: "env \<Rightarrow> cond list \<Rightarrow> row \<Rightarrow> bool" where
  "matches e conds r = list_all (eval_cond e r) conds"

definition time_of :: "row \<Rightarrow> string \<Rightarrow> int" where
  "time_of r col = (case r col of Some (VTime t) \<Rightarrow> t | _ \<Rightarrow> 0)"

definition order_key :: "string list \<Rightarrow> row \<Rightarrow> int list" where
  "order_key cols r = map (time_of r) cols"

fun insert_desc :: "('a \<Rightarrow> 'k::linorder) \<Rightarrow> 'a \<Rightarrow> 'a list \<Rightarrow> 'a list" where
  "insert_desc f x [] = [x]"
| "insert_desc f x (y # ys) = (if f y < f x then x # y # ys else y # insert_desc f x ys)"

definition order_desc :: "('a \<Rightarrow> 'k::linorder) \<Rightarrow> 'a list \<Rightarrow> 'a list" where
  "order_desc f xs = foldr (insert_desc f) xs []"

definition sql_order :: "env \<Rightarrow> select_builder \<Rightarrow> row list \<Rightarrow> row list" where
  "sql_order e b rs = order_desc (order_key (sel_order b)) (order_desc (tie_rank e b) rs)"

definition run_select :: "env \<Rightarrow> select_builder \<Rightarrow> db \<Rightarrow> row list" where
  "run_select e b d =
     (let rs = filter (matches e (sel_where b)) (tables d (sel_from b));
          rs = sql_order e b rs;
          rs = (case sel_offset b of None \<Rightarrow> rs | Some n \<Rightarrow> drop n rs);
          rs = (case sel_limit b of None \<Rightarrow> rs | Some n \<Rightarrow> take n rs)
      in map (\<lambda>r. r |` set (sel_columns b)) rs)"

definition run_count :: "env \<Rightarrow> select_builder \<Rightarrow> db \<Rightarrow> nat" where
  "run_count e b d = length (filter (matches e (sel_where b)) (tables d (sel_from b)))"

fun failure_text :: "db_failure \<Rightarrow> string" where
  "failure_text (PgError code txt) = txt"
| "failure_text (PoolPgError code txt) = txt"
| "failure_text NoRows = ''no rows in result set''"
| "failure_text (OtherFailure txt) = txt"

definition repo_Get ::
  "entity \<Rightarrow> env \<Rightarrow> (string \<times> string) list \<Rightarrow> db \<Rightarrow> (error + row) \<times> db" where
  "repo_Get ent e params d =
     (if length params = 0 then (Inl FilterRequired, d)
      else
        (let builder = foldl (\<lambda>b (key, v). Where (Eq key v) b)
                         (Select (get_columns ent) (tableName ent)) params;
             d' = log_stmt (SelectStmt (tableName ent)) d
         in case query_error e of
              Some f \<Rightarrow> (Inl (db_Error f), d')
            | None \<Rightarrow>
                (case run_select e builder d of
                   [] \<Rightarrow> (Inl (db_Error NoRows), d')
                 | r # rs \<Rightarrow> (Inr r, d'))))"

definition List_builders ::
  "entity \<Rightarrow> nat \<Rightarrow> nat \<Rightarrow> (string \<times> string) list \<Rightarrow> string \<Rightarrow> select_builder \<times> select_builder" where
  "List_builders ent limit offset filterMap search =
     (let baseBuilder = Select (list_columns ent) (tableName ent);
          countBuilder = Select [''COUNT(*)''] (tableName ent);
          (baseBuilder, countBuilder) =
             foldl (\<lambda>(b, c) (key, v). (Where (Eq key v) b, Where (Eq key v) c))
               (baseBuilder, countBuilder) filterMap;
          (baseBuilder, countBuilder) =
             (if search \<noteq> [] then
                (let searchClause =
                       OrILike (map (\<lambda>col. (col, ''%'' @ search @ ''%'')) (search_columns ent))
                 in (Where searchClause baseBuilder, Where searchClause countBuilder))
              else (baseBuilder, countBuilder));
          baseBuilder = Offset offset (Limit limit (OrderBy (order_columns ent) baseBuilder))
      in (baseBuilder, countBuilder))"

definition repo_List ::
  "entity \<Rightarrow> env \<Rightarrow> nat \<Rightarrow> nat \<Rightarrow> (string \<times> string) list \<Rightarrow> string \<Rightarrow> db
     \<Rightarrow> (error + row list \<times> nat) \<times> db" where
  "repo_List ent e limit offset filterMap search d =
     (let (baseBuilder, countBuilder) = List_builders ent limit offset filterMap search;
          d1 = log_stmt (SelectStmt (tableName ent)) d
      in case query_error e of
           Some f \<Rightarrow> (Inl (QueryError (failure_text f)), d1)
         | None \<Rightarrow>
             (let items = run_select e baseBuilder d in
              if items \<noteq> [] \<and> scan_error e \<noteq> None
              then (Inl (ScanError (the (scan_error e))), d1)
              else
                (let d2 = log_stmt (CountStmt (tableName ent)) d1 in
                 case count_error e of
                   Some txt \<Rightarrow> (Inl (CountQueryError txt), d2)
                 | None \<Rightarrow> (Inr (items, run_count e countBuilder d), d2))))"

text \<open>The pages of a listing: page \<open>k\<close> is the call with offset \<open>k * limit\<close>.\<close>

definition page_items ::
  "entity \<Rightarrow> env \<Rightarrow> nat \<Rightarrow> (string \<times> string) list \<Rightarrow> string \<Rightarrow> db \<Rightarrow> nat \<Rightarrow> row list" where
  "page_items ent e limit filterMap search d k =
     (case fst (repo_List ent e limit (k * limit) filterMap search d) of
        Inr (items, totalCount) \<Rightarrow> items
      | Inl err \<Rightarrow> [])"

definition by_created_at_desc :: "row \<Rightarrow> row \<Rightarrow> bool" where
  "by_created_at_desc a b = (time_of a ''created_at'' \<ge> time_of b ''created_at'')"

definition by_date_intime_desc :: "row \<Rightarrow> row \<Rightarrow> bool" where
  "by_date_intime_desc a b =
     (time_of a ''date'' > time_of b ''date''
      \<or> (time_of a ''date'' = time_of b ''date'' \<and> time_of a ''intime'' \<ge> time_of b ''intime''))"

text \<open>
  The conditions a listing collects, the stored rows that satisfy them, and these rows
  ordered by their sort keys alone and projected.
\<close>

definition list_conds :: "entity \<Rightarrow> (string \<times> string) list \<Rightarrow> string \<Rightarrow> cond list" where
  "list_conds ent flt search =
     map (\<lambda>(key, v). Eq key v) flt
     @ (if search \<noteq> [] then
          [OrILike (map (\<lambda>col. (col, ''%'' @ search @ ''%'')) (search_columns ent))]
        else [])"

definition matching :: "entity \<Rightarrow> env \<Rightarrow> (string \<times> string) list \<Rightarrow> string \<Rightarrow> db \<Rightarrow> row list" where
  "matching ent e flt search d =
     filter (matches e (list_conds ent flt search)) (tables d (tableName ent))"

definition listing :: "entity \<Rightarrow> env \<Rightarrow> (string \<times> string) list \<Rightarrow> string \<Rightarrow> db \<Rightarrow> row list" where
  "listing ent e flt search d =
     map (\<lambda>r. r |` set (list_columns ent))
       (order_desc (order_key (order_columns ent)) (matching ent e flt search d))"

text \<open>Whether no two of the rows a listing matches have the same sort key.\<close>

definition keys_distinct :: "entity \<Rightarrow> env \<Rightarrow> (string \<times> string) list \<Rightarrow> string \<Rightarrow> db \<Rightarrow> bool" where
  "keys_distinct ent e flt search d =
     distinct (map (order_key (order_columns ent)) (matching ent e flt search d))"

text \<open>The whole result of a page statement, before offset and limit cut it.\<close>

definition statement_rows ::
  "entity \<Rightarrow> env \<Rightarrow> nat \<Rightarrow> nat \<Rightarrow> (string \<times> string) list \<Rightarrow> string \<Rightarrow> db \<Rightarrow> row list" where
  "statement_rows ent e limit offset flt search d =
     map (\<lambda>r. r |` set (list_columns ent))
       (sql_order e (fst (List_builders ent limit offset flt search))
          (matching ent e flt search d))"

text \<open>The stored rows a \<open>Get\<close> selects from.\<close>

definition get_rows :: "entity \<Rightarrow> env \<Rightarrow> (string \<times> string) list \<Rightarrow> db \<Rightarrow> row list" where
  "get_rows ent e params d =
     filter (\<lambda>r. \<forall>(key, v) \<in> set params. eval_cond e r (Eq key v)) (tables d (tableName ent))"

text \<open>Concrete inputs: an environment without failures and small tables.\<close>

definition env0 :: env where
  "env0 = \<lparr>now = 100, begin_error = None, exec_error = None, commit_error = None,
            query_error = None, scan_error = None, count_error = None,
            eq_text = (\<lambda>v s. v = VStr s),
            ilike = (\<lambda>v pat. case v of VStr s \<Rightarrow> strings_Contains s (butlast (tl pat)) | _ \<Rightarrow> False),
            tie_rank = (\<lambda>b r. 0)\<rparr>"

definition att_row1 :: row where
  "att_row1 = [''id'' \<mapsto> VInt 1, ''user_id'' \<mapsto> VInt 7, ''date'' \<mapsto> VTime 10,
               ''intime'' \<mapsto> VTime 11, ''outtime'' \<mapsto> VTime 12, ''status'' \<mapsto> VStr ''late'',
               ''created_at'' \<mapsto> VTime 20, ''updated_at'' \<mapsto> VTime 20]"

definition att_row2 :: row where
  "att_row2 = [''id'' \<mapsto> VInt 2, ''user_id'' \<mapsto> VInt 7, ''date'' \<mapsto> VTime 30,
               ''intime'' \<mapsto> VTime 31, ''outtime'' \<mapsto> VNull, ''status'' \<mapsto> VStr ''late'',
               ''created_at'' \<mapsto> VTime 15, ''updated_at'' \<mapsto> VTime 15]"

definition db_att :: db where
  "db_att = \<lparr>tables = (\<lambda>t. [])(''attendances'' := [att_row1, att_row2]), executed = []\<rparr>"

definition att_status_only :: UpdateAttendanceRequest where
  "att_status_only = \<lparr>att_ID = 1, att_UserID = None, att_Date = None, att_InTime = None,
                       att_OutTime = None, att_Status = Some ''present''\<rparr>"

definition att_nothing :: UpdateAttendanceRequest where
  "att_nothing = \<lparr>att_ID = 1, att_UserID = None, att_Date = None, att_InTime = None,
                   att_OutTime = None, att_Status = None\<rparr>"

definition user_row1 :: row where
  "user_row1 = [''id'' \<mapsto> VInt 1, ''first_name'' \<mapsto> VStr ''Ali'', ''last_name'' \<mapsto> VStr ''Valiev'',
                ''role'' \<mapsto> VStr ''user'', ''email'' \<mapsto> VStr ''a@b.com'',
                ''phone'' \<mapsto> VStr ''+998901234567'', ''photo_url'' \<mapsto> VNull, ''bio'' \<mapsto> VNull,
                ''hashed_password'' \<mapsto> VStr ''h1'', ''hashed_refresh_token'' \<mapsto> VNull,
                ''created_at'' \<mapsto> VTime 20, ''updated_at'' \<mapsto> VTime 20]"

definition db_user :: db where
  "db_user = \<lparr>tables = (\<lambda>t. [])(''users'' := [user_row1]), executed = []\<rparr>"

definition user_bio_only :: UpdateUserRequest where
  "user_bio_only = \<lparr>user_ID = 1, user_FirstName = None, user_LastName = None, user_Role = None,
                     user_Email = None, user_Phone = None, user_PhotoURL = None,
                     user_Bio = Some ''hello'', user_HashedPassword = None,
                     user_HashedRefreshToken = None\<rparr>"

definition task_nothing :: UpdateTaskRequest where
  "task_nothing = \<lparr>task_ID = 1, task_AssignedTo = None, task_AdminID = None, task_Title = None,
                    task_Description = None, task_Status = None, task_Priority = None,
                    task_DueDate = None\<rparr>"

definition task_row :: "int \<Rightarrow> string \<Rightarrow> string \<Rightarrow> int \<Rightarrow> row" where
  "task_row i title status created =
     [''id'' \<mapsto> VInt i, ''assignedto'' \<mapsto> VNull, ''admin_id'' \<mapsto> VInt 1,
      ''title'' \<mapsto> VStr title, ''description'' \<mapsto> VNull, ''status'' \<mapsto> VStr status,
      ''priority'' \<mapsto> VStr ''low'', ''duedate'' \<mapsto> VNull, ''created_at'' \<mapsto> VTime created,
      ''updated_at'' \<mapsto> VTime created]"

definition db_tasks :: db where
  "db_tasks =
     \<lparr>tables = (\<lambda>t. [])(''tasks'' :=
        [task_row 1 ''fix login'' ''pending'' 30, task_row 2 ''write docs'' ''pending'' 20,
         task_row 3 ''fix logout'' ''completed'' 10, task_row 4 ''fix cache'' ''pending'' 5]),
      executed = []\<rparr>"

text \<open>
  Two tasks created at the same instant, and a store that returns them in one order for
  the statement with offset 0 and in the other order for every other statement.
\<close>

definition db_tied :: db where
  "db_tied =
     \<lparr>tables = (\<lambda>t. [])(''tasks'' :=
        [task_row 1 ''fix login'' ''pending'' 50, task_row 2 ''fix logout'' ''pending'' 50]),
      executed = []\<rparr>"

definition env_ties :: env where
  "env_ties =
     env0\<lparr>tie_rank := (\<lambda>b r. if (sel_offset b = Some 0) = (row_id r = Some (VInt 1))
                                then 0 else 1)\<rparr>"

section \<open>User update handler (internal/https/v1, updateUser)\<close>

text \<open>
  The handler's inputs are the \<open>id\<close> path parameter after \<open>strings.TrimSpace\<close> and the
  outcome of binding the JSON body (\<open>None\<close> when binding fails). \<open>entity.GetUserRole\<close>
  is not among the sources and \<open>bcrypt.GenerateFromPassword\<close> is a library function;
  both are parameters, as is the text of \<open>entity.ErrorConflict\<close>. Dereferencing a nil
  pointer panics.
\<close>

record UpdateUserPayload =
  pl_FirstName :: "string option"
  pl_LastName :: "string option"
  pl_Role :: "string option"
  pl_Email :: "string option"
  pl_Phone :: "string option"
  pl_PhotoURL :: "string option"
  pl_Bio :: "string option"
  pl_Password :: "string option"

record deps =
  GetUserRole :: "string \<Rightarrow> string"
  GenerateFromPassword :: "string \<Rightarrow> string + string"
  ErrorConflict_text :: string

datatype outcome = Panic | Response nat

text \<open>\<open>strconv.ParseInt(s, 10, 64)\<close> accepts what \<open>strconv.Atoi\<close> accepts on 64 bits.\<close>

definition strconv_ParseInt :: "string \<Rightarrow> int option" where
  "strconv_ParseInt s = strconv_Atoi s"

fun show_nat :: "nat \<Rightarrow> string" where
  "show_nat n =
     (if n < 10 then [char_of (48 + n)] else show_nat (n div 10) @ [char_of (48 + n mod 10)])"

declare show_nat.simps [simp del]

definition fmt_d :: "int \<Rightarrow> string" where
  "fmt_d i = (if i < 0 then CHR ''-'' # show_nat (nat (- i)) else show_nat (nat i))"

text \<open>\<open>err.Error()\<close> for the errors the user repository returns.\<close>

fun error_text :: "deps \<Rightarrow> error \<Rightarrow> string" where
  "error_text lib RequestNil = ''user update request cannot be nil''"
| "error_text lib IDRequired = ''user ID is required for update''"
| "error_text lib InvalidPhoneNumberFormat = ''invalid phone number format''"
| "error_text lib NoFieldsToUpdate = ''no fields to update''"
| "error_text lib (NotFoundWithID noun i) = ''no '' @ noun @ '' found with ID '' @ fmt_d i"
| "error_text lib (TransactionStartFailed txt) = ''transaction start failed: '' @ txt"
| "error_text lib (CommitFailed txt) = ''commit failed: '' @ txt"
| "error_text lib ErrorConflict = ErrorConflict_text lib"
| "error_text lib ErrNoRows = ''no rows in result set''"
| "error_text lib (StoreError txt) = txt"
| "error_text lib FilterRequired = ''at least one filter parameter is required''"
| "error_text lib (QueryError txt) = ''query error: '' @ txt"
| "error_text lib (ScanError txt) = ''scan error: '' @ txt"
| "error_text lib (CountQueryError txt) = ''count query error: '' @ txt"

definition updateReq_of :: "int \<Rightarrow> UpdateUserPayload \<Rightarrow> string \<Rightarrow> UpdateUserRequest" where
  "updateReq_of i payload role =
     \<lparr>user_ID = i, user_FirstName = pl_FirstName payload, user_LastName = pl_LastName payload,
      user_Role = Some role, user_Email = pl_Email payload, user_Phone = pl_Phone payload,
      user_PhotoURL = pl_PhotoURL payload, user_Bio = pl_Bio payload,
      user_HashedPassword = None, user_HashedRefreshToken = None\<rparr>"

definition respond_update :: "deps \<Rightarrow> error option \<Rightarrow> outcome" where
  "respond_update lib err =
     (case err of
        None \<Rightarrow> Response 200
      | Some er \<Rightarrow>
          if strings_Contains (error_text lib er) ''no user found with ID'' then Response 404
          else if strings_Contains (error_text lib er) ''no fields to update'' then Response 400
          else Response 500)"

definition call_Update :: "deps \<Rightarrow> env \<Rightarrow> UpdateUserRequest \<Rightarrow> db \<Rightarrow> outcome \<times> db" where
  "call_Update lib e updateReq d =
     (case userRepo_Update e (Some updateReq) d of (err, d') \<Rightarrow> (respond_update lib err, d'))"

definition updateUser ::
  "deps \<Rightarrow> env \<Rightarrow> string \<Rightarrow> UpdateUserPayload option \<Rightarrow> db \<Rightarrow> outcome \<times> db" where
  "updateUser lib e idStr bound d =
     (case strconv_ParseInt idStr of
        None \<Rightarrow> (Response 400, d)
      | Some i \<Rightarrow>
          if i \<le> 0 then (Response 400, d)
          else
            (case bound of
               None \<Rightarrow> (Response 400, d)
             | Some payload \<Rightarrow>
                 (case pl_Role payload of
                    None \<Rightarrow> (Panic, d)
                  | Some r \<Rightarrow>
                      (let role = GetUserRole lib r;
                           updateReq = updateReq_of i payload role
                       in if pl_Password payload \<noteq> None \<and> the (pl_Password payload) \<noteq> []
                          then (case GenerateFromPassword lib (the (pl_Password payload)) of
                                  Inl txt \<Rightarrow> (Response 500, d)
                                | Inr hashedPasswordStr \<Rightarrow>
                                    call_Update lib e
                                      (updateReq\<lparr>user_HashedPassword := Some hashedPasswordStr\<rparr>) d)
                          else call_Update lib e updateReq d))))"

definition lib0 :: deps where
  "lib0 = \<lparr>GetUserRole = (\<lambda>s. s), GenerateFromPassword = (\<lambda>p. Inr (''$2a$10$'' @ p)),
            ErrorConflict_text = ''conflict''\<rparr>"

definition payload_password_only :: UpdateUserPayload where
  "payload_password_only =
     \<lparr>pl_FirstName = None, pl_LastName = None, pl_Role = None, pl_Email = None, pl_Phone = None,
      pl_PhotoURL = None, pl_Bio = None, pl_Password = Some ''NewSecret1''\<rparr>"

definition payload_name_only :: UpdateUserPayload where
  "payload_name_only =
     \<lparr>pl_FirstName = Some ''Vali'', pl_LastName = None, pl_Role = None, pl_Email = None,
      pl_Phone = None, pl_PhotoURL = None, pl_Bio = None, pl_Password = None\<rparr>"

definition payload_role_only :: UpdateUserPayload where
  "payload_role_only =
     \<lparr>pl_FirstName = None, pl_LastName = None, pl_Role = Some ''admin'', pl_Email = None,
      pl_Phone = None, pl_PhotoURL = None, pl_Bio = None, pl_Password = None\<rparr>"

section \<open>Properties of the phone number validation\<close>

lemma parse_digits_Some_iff:
  "(\<exists>m. parse_digits n s = Some m) \<longleftrightarrow> list_all is_digit s"
  by (induction s arbitrary: n) auto

lemma parse_digits_bound:
  "parse_digits n s = Some m \<Longrightarrow> m < (n + 1) * 10 ^ length s"
proof (induction s arbitrary: n)
  case Nil
  then show ?case by simp
next
  case (Cons c cs)
  from Cons.prems have d: "is_digit c"
    and r: "parse_digits (n * 10 + ((of_char c :: nat) - 48)) cs = Some m"
    by (auto split: if_splits)
  from d have "(of_char c :: nat) - 48 \<le> 9"
    unfolding is_digit_def by linarith
  then have "n * 10 + ((of_char c :: nat) - 48) + 1 \<le> (n + 1) * 10"
    by simp
  then have "(n * 10 + ((of_char c :: nat) - 48) + 1) * 10 ^ length cs \<le> (n + 1) * 10 * 10 ^ length cs"
    by (rule mult_right_mono) simp
  moreover have "m < (n * 10 + ((of_char c :: nat) - 48) + 1) * 10 ^ length cs"
    using Cons.IH [OF r] .
  ultimately have "m < (n + 1) * 10 * 10 ^ length cs"
    by (rule less_le_trans [rotated])
  then show ?case
    by (simp add: algebra_simps)
qed

lemma Atoi_short_iff:
  assumes "length s \<le> 18"
  shows "strconv_Atoi s \<noteq> None \<longleftrightarrow> signed_decimal s"
proof (cases s)
  case Nil
  then show ?thesis by (simp add: strconv_Atoi_def signed_decimal_def)
next
  case (Cons c cs)
  define body where "body = (if c = CHR ''-'' \<or> c = CHR ''+'' then cs else s)"
  have len: "length body \<le> 18"
    using assms Cons by (simp add: body_def)
  have sd: "signed_decimal s = all_digits body"
    using Cons by (simp add: signed_decimal_def body_def)
  have atoi: "strconv_Atoi s =
      (if body = [] then None
       else (case parse_digits 0 body of
               None \<Rightarrow> None
             | Some n \<Rightarrow>
                 (let v = (if c = CHR ''-'' then - int n else int n) in
                  if - (2 ^ 63) \<le> v \<and> v < 2 ^ 63 then Some v else None)))"
    using Cons by (simp add: strconv_Atoi_def body_def Let_def)
  show ?thesis
  proof (cases "body \<noteq> [] \<and> list_all is_digit body")
    case False
    then have "parse_digits 0 body = None \<or> body = []"
      using parse_digits_Some_iff [of 0 body] by auto
    then have "strconv_Atoi s = None"
      by (auto simp add: atoi)
    with False sd show ?thesis by (simp add: all_digits_def)
  next
    case True
    then obtain m where m: "parse_digits 0 body = Some m"
      using parse_digits_Some_iff [of 0 body] by auto
    have "m < 10 ^ length body"
      using parse_digits_bound [OF m] by simp
    also have "\<dots> \<le> (10::nat) ^ 18"
      using len by (intro power_increasing) simp_all
    finally have "int m < 2 ^ 63" by simp
    then have "strconv_Atoi s \<noteq> None"
      using True m by (simp add: atoi Let_def)
    with True sd show ?thesis by (simp add: all_digits_def)
  qed
qed

text \<open>
  Claim C10. \<open>ValidatePhoneNumber\<close> returns true exactly for the 13-byte strings that start
  with \<open>+998\<close> and whose remaining nine bytes are an optionally signed decimal integer; in
  particular \<open>+998-12345678\<close>, whose tail is not all digits, is accepted.
\<close>

theorem ValidatePhoneNumber_iff:
  "(ValidatePhoneNumber p \<longleftrightarrow>
      length p = 13 \<and> take 4 p = ''+998'' \<and> signed_decimal (drop 4 p))
   \<and> ValidatePhoneNumber ''+998-12345678''
   \<and> \<not> all_digits (drop 4 ''+998-12345678'')"
proof -
  have "ValidatePhoneNumber p \<longleftrightarrow>
      length p = 13 \<and> take 4 p = ''+998'' \<and> signed_decimal (drop 4 p)"
  proof (cases "length p = 13")
    case True
    then have "length (drop 4 p) \<le> 18" by simp
    from Atoi_short_iff [OF this] True show ?thesis
      by (auto simp add: ValidatePhoneNumber_def)
  next
    case False
    then show ?thesis by (simp add: ValidatePhoneNumber_def)
  qed
  moreover have "ValidatePhoneNumber ''+998-12345678''"
    by (simp add: ValidatePhoneNumber_def strconv_Atoi_def is_digit_def)
  moreover have "\<not> all_digits (drop 4 ''+998-12345678'')"
    by (simp add: all_digits_def is_digit_def)
  ultimately show ?thesis by blast
qed

theorem ValidatePhoneNumber_iff_witness:
  "ValidatePhoneNumber ''+998901234567'' \<and> \<not> ValidatePhoneNumber ''+99890123456x''
   \<and> \<not> ValidatePhoneNumber ''+9989012345670''"
proof -
  have a: "signed_decimal (drop 4 ''+998901234567'')"
    by (simp add: signed_decimal_def all_digits_def is_digit_def)
  have b: "\<not> signed_decimal (drop 4 ''+99890123456x'')"
    by (simp add: signed_decimal_def all_digits_def is_digit_def)
  show ?thesis
    using ValidatePhoneNumber_iff [of "''+998901234567''"]
      ValidatePhoneNumber_iff [of "''+99890123456x''"]
      ValidatePhoneNumber_iff [of "''+9989012345670''"] a b
    by simp
qed

section \<open>Properties of the claims extractor and the middleware\<close>

lemma flag_values:
  "ValidationErrorSignatureInvalid AND ValidationErrorMalformed = 0"
  "ValidationErrorSignatureInvalid AND (ValidationErrorExpired OR ValidationErrorNotValidYet) = 0"
  "ValidationErrorExpired AND ValidationErrorMalformed = 0"
  "ValidationErrorExpired AND (ValidationErrorExpired OR ValidationErrorNotValidYet) \<noteq> 0"
  "ValidationErrorSignatureInvalid \<noteq> 0"
  "ValidationErrorExpired \<noteq> 0"
  by (simp_all add: ValidationErrorSignatureInvalid_def ValidationErrorMalformed_def
      ValidationErrorExpired_def ValidationErrorNotValidYet_def)

text \<open>
  Claim C4 as stated fails: a token whose only defect is an invalid signature does not get
  the \<open>TokenMalformed\<close> error but the generic one.
\<close>

theorem ParseJwtToken_signature_invalid_generic:
  "flag_set (ValidationError ValidationErrorSignatureInvalid) ValidationErrorSignatureInvalid
   \<and> ParseJwtToken sig_invalid_parser ''a.b.c'' ''secret''
       = Inl (CouldntHandle (ValidationError ValidationErrorSignatureInvalid))
   \<and> ParseJwtToken sig_invalid_parser ''a.b.c'' ''secret'' \<noteq> Inl ErrValidationErrorMalformed"
  by (simp add: ParseJwtToken_def sig_invalid_parser_def flag_values)

text \<open>
  Claim C4, amended. \<open>ParseJwtToken\<close> signals \<open>TokenMalformed\<close> exactly when the parse
  error carries the malformed flag, and \<open>TokenExpiredOrInactive\<close> exactly when the
  malformed flag is absent and the expired or the not-yet-valid flag is present; every
  other parse failure, an invalid signature among them, produces the generic error, which
  differs from both.
\<close>

theorem ParseJwtToken_errors:
  "(ParseJwtToken parse t k = Inl ErrValidationErrorMalformed \<longleftrightarrow>
      (\<exists>e. parse t k = ParseFailed e \<and> flag_set e ValidationErrorMalformed))
   \<and> (ParseJwtToken parse t k = Inl ErrTokenExpiredOrNotValidYet \<longleftrightarrow>
      (\<exists>e. parse t k = ParseFailed e \<and> \<not> flag_set e ValidationErrorMalformed
           \<and> flag_set e (ValidationErrorExpired OR ValidationErrorNotValidYet)))
   \<and> (\<forall>e. parse t k = ParseFailed e \<and> \<not> flag_set e ValidationErrorMalformed
           \<and> \<not> flag_set e (ValidationErrorExpired OR ValidationErrorNotValidYet)
        \<longrightarrow> ParseJwtToken parse t k = Inl (CouldntHandle e))
   \<and> (\<forall>e. parse t k = ParseFailed e \<longrightarrow> (\<exists>err. ParseJwtToken parse t k = Inl err))
   \<and> (\<forall>m. parse t k = Parsed m \<longrightarrow> (\<exists>cl. ParseJwtToken parse t k = Inr cl))"
proof (cases "parse t k")
  case (Parsed m)
  then show ?thesis
    by (simp add: ParseJwtToken_def split: option.split)
next
  case (ParseFailed e)
  then show ?thesis
    by (cases e) (simp_all add: ParseJwtToken_def)
qed

theorem ParseJwtToken_errors_witness:
  "ParseJwtToken expired_parser ''a.b.c'' ''secret'' = Inl ErrTokenExpiredOrNotValidYet
   \<and> ParseJwtToken sig_invalid_parser ''a.b.c'' ''secret''
       = Inl (CouldntHandle (ValidationError ValidationErrorSignatureInvalid))"
proof -
  have a: "expired_parser ''a.b.c'' ''secret'' = ParseFailed (ValidationError ValidationErrorExpired)"
    by (simp add: expired_parser_def)
  have b: "sig_invalid_parser ''a.b.c'' ''secret''
      = ParseFailed (ValidationError ValidationErrorSignatureInvalid)"
    by (simp add: sig_invalid_parser_def)
  show ?thesis
    using ParseJwtToken_errors [of expired_parser "''a.b.c''" "''secret''"]
      ParseJwtToken_errors [of sig_invalid_parser "''a.b.c''" "''secret''"] a b
    by (simp add: flag_values)
qed

text \<open>
  Claim C5. Whatever the request carries (no token, or a token whose parse fails in any
  way, or a valid one), the middleware runs the downstream handlers exactly once and
  never aborts the request; when no token is found or the parse fails, nothing is stored
  in the context, so the request goes on unauthenticated.
\<close>

theorem AuthContext_never_aborts:
  "next_calls (AuthContext parse hdr secret req c) = Suc (next_calls c)
   \<and> aborted (AuthContext parse hdr secret req c) = aborted c
   \<and> (extract_token req = [] \<or> isl (ParseJwtToken parse (extract_token req) secret)
        \<longrightarrow> keys (AuthContext parse hdr secret req c) = keys c)"
  by (auto simp add: AuthContext_def c_Next_def c_Set_def Let_def split: sum.splits)

theorem AuthContext_never_aborts_witness:
  "extract_token bearer_request = ''abc.def.ghi''
   \<and> isl (ParseJwtToken expired_parser (extract_token bearer_request) ''secret'')
   \<and> next_calls (AuthContext expired_parser ''X-Request-Id'' ''secret'' bearer_request fresh_context) = 1
   \<and> \<not> aborted (AuthContext expired_parser ''X-Request-Id'' ''secret'' bearer_request fresh_context)
   \<and> keys (AuthContext expired_parser ''X-Request-Id'' ''secret'' bearer_request fresh_context)
       = Map.empty"
proof -
  have t: "extract_token bearer_request = ''abc.def.ghi''"
    by (simp add: extract_token_def bearer_request_def)
  have p: "isl (ParseJwtToken expired_parser (extract_token bearer_request) ''secret'')"
    by (simp add: ParseJwtToken_def expired_parser_def flag_values)
  show ?thesis
    using AuthContext_never_aborts
      [of expired_parser "''X-Request-Id''" "''secret''" bearer_request fresh_context] t p
    by (simp add: fresh_context_def)
qed

section \<open>Properties of repository Update\<close>

lemma map_of_set_clause:
  "map_of (set_clause k v cl) x = (if x = k \<and> v \<noteq> None then v else map_of cl x)"
  by (cases v) (simp_all add: set_clause_def update_conv')

lemma keys_set_clause:
  "fst ` set (set_clause k v cl) = (if v = None then fst ` set cl else insert k (fst ` set cl))"
  by (cases v) (simp_all add: set_clause_def dom_update)

lemma distinct_set_clause:
  "distinct (map fst cl) \<Longrightarrow> distinct (map fst (set_clause k v cl))"
  by (cases v) (simp_all add: set_clause_def distinct_update)

lemma apply_fields_Nil: "apply_fields [] cl = cl"
  by (simp add: apply_fields_def)

lemma apply_fields_Cons: "apply_fields ((k, v) # fs) cl = apply_fields fs (set_clause k v cl)"
  by (simp add: apply_fields_def)

lemma distinct_apply_fields:
  "distinct (map fst cl) \<Longrightarrow> distinct (map fst (apply_fields fs cl))"
  by (induction fs arbitrary: cl) (auto simp add: apply_fields_Nil apply_fields_Cons distinct_set_clause)

lemma set_non_null: "set (non_null fs) = {(k, v). (k, Some v) \<in> set fs}"
  by (induction fs) (auto simp add: non_null_def field_def split: option.splits)

lemma keys_apply_fields:
  "fst ` set (apply_fields fs cl) = fst ` set cl \<union> fst ` set (non_null fs)"
proof (induction fs arbitrary: cl)
  case Nil
  then show ?case by (simp add: apply_fields_Nil non_null_def)
next
  case (Cons f fs)
  obtain k v where f: "f = (k, v)" by (cases f)
  have "set (non_null ((k, v) # fs)) = set (field k v) \<union> set (non_null fs)"
    by (simp add: non_null_def)
  moreover have "fst ` set (field k v) = (if v = None then {} else {k})"
    by (cases v) (simp_all add: field_def)
  ultimately show ?case
    unfolding f apply_fields_Cons Cons.IH keys_set_clause
    by (auto simp add: image_Un)
qed

lemma map_of_apply_fields:
  assumes "distinct (map fst fs)"
  shows "map_of (apply_fields fs cl) c =
     (case map_of fs c of Some (Some v) \<Rightarrow> Some v | _ \<Rightarrow> map_of cl c)"
  using assms
proof (induction fs arbitrary: cl)
  case Nil
  then show ?case by (simp add: apply_fields_Nil)
next
  case (Cons f fs)
  obtain k v where f: "f = (k, v)" by (cases f)
  from Cons.prems have d: "distinct (map fst fs)" and k: "k \<notin> fst ` set fs"
    by (simp_all add: f)
  from k have n: "map_of fs k = None"
    by (simp add: map_of_eq_None_iff)
  show ?case
    unfolding f apply_fields_Cons Cons.IH [OF d]
    using n by (auto simp add: map_of_set_clause split: option.splits)
qed

lemma two_keys_length:
  assumes "distinct (map fst cl)" "a \<in> fst ` set cl" "b \<in> fst ` set cl" "a \<noteq> b"
  shows "2 \<le> length cl"
proof -
  have "card {a, b} \<le> card (set (map fst cl))"
    using assms by (intro card_mono) auto
  also have "\<dots> = length cl"
    using assms(1) distinct_card [of "map fst cl"] by simp
  finally show ?thesis using assms(4) by simp
qed

lemma tested_keys:
  "distinct (map fst (tested_fields rq))"
  "''updated_at'' \<notin> fst ` set (tested_fields rq)"
  "''created_at'' \<notin> fst ` set (tested_fields rq)"
  by (cases rq; simp)+

lemma written_eq:
  "set (non_null (tested_fields rq)) = set (supplied rq @ also_written rq)"
  by (cases rq) (auto simp add: supplied_def set_non_null split: option.splits)

lemma repo_Update_unfold:
  assumes "request_id rq \<noteq> 0" "phone_ok rq"
    and "2 \<le> length (apply_fields (tested_fields rq) [(''updated_at'', VTime (now e))])"
  shows "repo_Update e rq d =
     exec_update e (table_of rq) (noun_of rq)
       (apply_fields (tested_fields rq) [(''updated_at'', VTime (now e))]) (request_id rq) d"
proof (cases rq)
  case (UserUpdate req)
  have "userRepo_clauses (now e) req
      = Inr (apply_fields (tested_fields rq) [(''updated_at'', VTime (now e))])"
    using assms(2) UserUpdate
    by (auto simp add: userRepo_clauses_def Let_def apply_fields_def split: option.splits)
  then show ?thesis
    using assms(1,3) UserUpdate by (simp add: userRepo_Update_def)
next
  case (TaskUpdate req)
  have "taskRepo_clauses (now e) req
      = apply_fields (tested_fields rq) [(''updated_at'', VTime (now e))]"
    using TaskUpdate by (simp add: taskRepo_clauses_def Let_def apply_fields_def)
  then show ?thesis
    using assms(1,3) TaskUpdate by (simp add: taskRepo_Update_def Let_def)
next
  case (AttendanceUpdate req)
  have "attendanceRepo_clauses (now e) req
      = apply_fields (tested_fields rq) [(''updated_at'', VTime (now e))]"
    using AttendanceUpdate
    by (simp add: attendanceRepo_clauses_def Let_def apply_fields_def set_clause_def
        split: option.splits)
  then show ?thesis
    using assms(1,3) AttendanceUpdate by (simp add: attendanceRepo_Update_def Let_def)
next
  case (SalaryUpdate req)
  have "salaryRepo_clauses (now e) req
      = apply_fields (tested_fields rq) [(''updated_at'', VTime (now e))]"
    using SalaryUpdate by (simp add: salaryRepo_clauses_def Let_def apply_fields_def)
  then show ?thesis
    using assms(1,3) SalaryUpdate by (simp add: salaryRepo_Update_def Let_def)
next
  case (BonusUpdate req)
  have "bonusesRepo_clauses (now e) req
      = apply_fields (tested_fields rq) [(''updated_at'', VTime (now e))]"
    using BonusUpdate by (simp add: bonusesRepo_clauses_def Let_def apply_fields_def)
  then show ?thesis
    using assms(1,3) BonusUpdate by (simp add: bonusesRepo_Update_def Let_def)
next
  case (FileUpdate req)
  have "fileRepo_clauses (now e) req
      = apply_fields (tested_fields rq) [(''updated_at'', VTime (now e))]"
    using FileUpdate by (simp add: fileRepo_clauses_def Let_def apply_fields_def)
  then show ?thesis
    using assms(1,3) FileUpdate by (simp add: fileRepo_Update_def Let_def)
qed


lemma exec_update_ok:
  assumes "no_fault e" "rows_affected tbl i d \<noteq> 0"
  shows "exec_update e tbl noun cl i d = (None, log_stmt (UpdateStmt tbl) (sql_update tbl cl i d))"
  using assms by (simp add: exec_update_def no_fault_def)

lemma frame_generic:
  assumes "distinct (map fst fs)"
    and "''updated_at'' \<notin> fst ` set fs" and "''created_at'' \<notin> fst ` set fs"
  shows "frame_holds e (non_null fs) r
           (r ++ map_of (apply_fields fs [(''updated_at'', VTime (now e))]))"
proof -
  let ?cl = "apply_fields fs [(''updated_at'', VTime (now e))]"
  have m: "\<And>c. map_of ?cl c =
      (case map_of fs c of Some (Some v) \<Rightarrow> Some v
       | _ \<Rightarrow> map_of [(''updated_at'', VTime (now e))] c)"
    by (rule map_of_apply_fields [OF assms(1)])
  have u: "map_of fs ''updated_at'' = None" and c: "map_of fs ''created_at'' = None"
    using assms(2,3) by (simp_all add: map_of_eq_None_iff)
  have a: "\<forall>(k, v) \<in> set (non_null fs). (r ++ map_of ?cl) k = Some v"
  proof (clarify)
    fix k v assume "(k, v) \<in> set (non_null fs)"
    then have "(k, Some v) \<in> set fs" by (simp add: set_non_null)
    then have "map_of fs k = Some (Some v)" using assms(1) by simp
    then show "(r ++ map_of ?cl) k = Some v" by (simp add: map_add_def m)
  qed
  have b: "\<forall>k. k \<notin> fst ` set (non_null fs) \<and> k \<noteq> ''updated_at'' \<longrightarrow> (r ++ map_of ?cl) k = r k"
  proof (clarify)
    fix k assume k: "k \<notin> fst ` set (non_null fs)" and n: "k \<noteq> ''updated_at''"
    have "map_of fs k = None \<or> map_of fs k = Some None"
    proof (cases "map_of fs k")
      case None
      then show ?thesis by simp
    next
      case (Some v)
      then have i: "(k, v) \<in> set fs" by (rule map_of_SomeD)
      show ?thesis
      proof (cases v)
        case None
        with Some show ?thesis by simp
      next
        case (Some x)
        with i have "(k, x) \<in> set (non_null fs)" by (simp add: set_non_null)
        then have "k \<in> fst ` set (non_null fs)" by force
        with k show ?thesis by simp
      qed
    qed
    then show "(r ++ map_of ?cl) k = r k"
      using n by (auto simp add: map_add_def m)
  qed
  show ?thesis
    unfolding frame_holds_def using a b u c by (simp add: map_add_def m)
qed

lemma frame_holds_set:
  "set w = set w' \<Longrightarrow> frame_holds e w r r' = frame_holds e w' r r'"
  by (simp add: frame_holds_def)

lemma supplied_length:
  assumes "supplied rq \<noteq> []"
  shows "2 \<le> length (apply_fields (tested_fields rq) [(''updated_at'', VTime t)])"
proof -
  let ?cl = "apply_fields (tested_fields rq) [(''updated_at'', VTime t)]"
  from assms obtain k v where "(k, v) \<in> set (supplied rq)"
    by (cases "supplied rq") auto
  then have kv: "(k, v) \<in> set (non_null (tested_fields rq))"
    by (simp add: written_eq)
  then have "(k, Some v) \<in> set (tested_fields rq)"
    by (simp add: set_non_null)
  then have "k \<in> fst ` set (tested_fields rq)" by force
  then have ne: "k \<noteq> ''updated_at''" using tested_keys(2) [of rq] by blast
  have "k \<in> fst ` set (non_null (tested_fields rq))" using kv by force
  then have k: "k \<in> fst ` set ?cl" by (simp add: keys_apply_fields)
  have u: "''updated_at'' \<in> fst ` set ?cl" by (simp add: keys_apply_fields)
  have "distinct (map fst ?cl)" by (rule distinct_apply_fields) simp
  from two_keys_length [OF this k u ne] show ?thesis .
qed

lemma empty_update_rejected:
  assumes "request_id rq \<noteq> 0" and "supplied rq = []" and "\<forall>req. rq \<noteq> AttendanceUpdate req"
  shows "repo_Update e rq d = (Some NoFieldsToUpdate, d)"
proof -
  have f: "\<And>k v. field k v = [] \<longleftrightarrow> v = None"
    by (simp add: field_def split: option.split)
  show ?thesis
    using assms
    by (cases rq)
      (simp_all add: supplied_def non_null_def f userRepo_Update_def userRepo_clauses_def
        taskRepo_Update_def taskRepo_clauses_def salaryRepo_Update_def salaryRepo_clauses_def
        bonusesRepo_Update_def bonusesRepo_clauses_def fileRepo_Update_def fileRepo_clauses_def
        set_clause_def)
qed

lemma attendance_clauses_length:
  "2 \<le> length (attendanceRepo_clauses t req)"
proof -
  let ?fs = "tested_fields (AttendanceUpdate req)"
  let ?cl = "apply_fields ?fs [(''updated_at'', VTime t)]"
  have eq: "attendanceRepo_clauses t req = ?cl"
    by (simp add: attendanceRepo_clauses_def Let_def apply_fields_def set_clause_def
        split: option.splits)
  have "(''outtime'', case att_OutTime req of Some ot \<Rightarrow> VTime ot | None \<Rightarrow> VNull)
      \<in> set (non_null ?fs)"
    by (simp add: set_non_null)
  then have o: "''outtime'' \<in> fst ` set ?cl"
    unfolding keys_apply_fields by force
  have u: "''updated_at'' \<in> fst ` set ?cl"
    by (simp add: keys_apply_fields)
  have "distinct (map fst ?cl)"
    by (rule distinct_apply_fields) simp
  from two_keys_length [OF this o u] show ?thesis
    by (simp add: eq)
qed

lemma attendance_guard_never_fires:
  "fst (attendanceRepo_Update e reqp d) \<noteq> Some NoFieldsToUpdate"
proof -
  have ne: "\<And>f. db_Error f \<noteq> NoFieldsToUpdate"
    by (case_tac f) auto
  show ?thesis
  proof (cases reqp)
    case None
    then show ?thesis by (simp add: attendanceRepo_Update_def)
  next
    case (Some req)
    have "\<not> length (attendanceRepo_clauses (now e) req) < 2"
      using attendance_clauses_length [of "now e" req] by simp
    then show ?thesis
      using Some ne
      by (auto simp add: attendanceRepo_Update_def Let_def exec_update_def
          split: option.splits)
  qed
qed

lemmas att_eval = attendanceRepo_Update_def attendanceRepo_clauses_def set_clause_def
  exec_update_def rows_affected_def sql_update_def log_stmt_def row_id_def env0_def db_att_def
  att_row1_def att_row2_def


text \<open>
  Claim C1 as stated fails for the attendance repository: a request that supplies only
  the status also turns a stored \<open>outtime\<close> into NULL, a column the request does not
  supply.
\<close>

theorem attendance_nulls_outtime:
  "supplied (AttendanceUpdate att_status_only) = [(''status'', VStr ''present'')]
   \<and> fst (repo_Update env0 (AttendanceUpdate att_status_only) db_att) = None
   \<and> att_row1 ''outtime'' = Some (VTime 12)
   \<and> hd (tables (snd (repo_Update env0 (AttendanceUpdate att_status_only) db_att)) ''attendances'')
        ''outtime'' = Some VNull
   \<and> \<not> frame_holds env0 (supplied (AttendanceUpdate att_status_only)) att_row1
        (hd (tables (snd (repo_Update env0 (AttendanceUpdate att_status_only) db_att))
              ''attendances''))"
proof -
  define r' where
    "r' = hd (tables (snd (repo_Update env0 (AttendanceUpdate att_status_only) db_att))
              ''attendances'')"
  have s: "supplied (AttendanceUpdate att_status_only) = [(''status'', VStr ''present'')]"
    by (simp add: supplied_def non_null_def field_def att_status_only_def)
  have r: "repo_Update env0 (AttendanceUpdate att_status_only) db_att =
     (None, \<lparr>tables = (\<lambda>t. [])(''attendances'' :=
         [att_row1 ++ map_of [(''updated_at'', VTime 100), (''outtime'', VNull),
                               (''status'', VStr ''present'')], att_row2]),
       executed = [UpdateStmt ''attendances'']\<rparr>)"
    by (simp add: att_eval att_status_only_def)
  have o: "att_row1 ''outtime'' = Some (VTime 12)"
    by (simp add: att_row1_def)
  have n: "r' ''outtime'' = Some VNull"
    by (simp add: r'_def r del: repo_Update.simps)
  have "\<not> frame_holds env0 [(''status'', VStr ''present'')] att_row1 r'"
  proof
    assume "frame_holds env0 [(''status'', VStr ''present'')] att_row1 r'"
    then have "\<forall>c. c \<notin> fst ` set [(''status'', VStr ''present'')] \<and> c \<noteq> ''updated_at''
        \<longrightarrow> r' c = att_row1 c"
      unfolding frame_holds_def by blast
    from this [rule_format, of "''outtime''"] have "r' ''outtime'' = att_row1 ''outtime''"
      by simp
    with n o show False by simp
  qed
  then show ?thesis
    using s o n r'_def by (simp add: r del: repo_Update.simps)
qed


text \<open>
  Claim C1, amended. For each of the six repositories, an \<open>Update\<close> with a non-zero
  identifier of an existing row, at least one non-null optional field (a supplied phone
  being well-formed, for users) and no failure of the store succeeds; it leaves the other
  tables and the other rows as they were, and in each target row the supplied columns
  take the supplied values, \<open>updated_at\<close> becomes the current time, and \<open>created_at\<close>
  and every other column keep their values, except that the attendance repository also
  sets \<open>outtime\<close> to NULL when the request does not supply it.
\<close>

theorem repo_Update_frame:
  assumes "request_id rq \<noteq> 0" and "supplied rq \<noteq> []" and "phone_ok rq" and "no_fault e"
    and "\<exists>r \<in> set (tables d (table_of rq)). target_row rq r"
  shows "fst (repo_Update e rq d) = None
    \<and> (\<forall>t. t \<noteq> table_of rq \<longrightarrow> tables (snd (repo_Update e rq d)) t = tables d t)
    \<and> list_all2 (\<lambda>r r'. if target_row rq r
                          then frame_holds e (supplied rq @ also_written rq) r r'
                          else r' = r)
         (tables d (table_of rq)) (tables (snd (repo_Update e rq d)) (table_of rq))"
proof -
  let ?cl = "apply_fields (tested_fields rq) [(''updated_at'', VTime (now e))]"
  have ra: "rows_affected (table_of rq) (request_id rq) d \<noteq> 0"
    using assms(5) by (auto simp add: rows_affected_def target_row_def filter_empty_conv)
  have res: "repo_Update e rq d =
      (None, log_stmt (UpdateStmt (table_of rq)) (sql_update (table_of rq) ?cl (request_id rq) d))"
    using repo_Update_unfold [OF assms(1,3) supplied_length [OF assms(2)]]
      exec_update_ok [OF assms(4) ra] by simp
  have fr: "\<And>r. frame_holds e (supplied rq @ also_written rq) r (r ++ map_of ?cl)"
    using frame_generic [OF tested_keys] frame_holds_set [OF written_eq] by simp
  have "list_all2 (\<lambda>r r'. if target_row rq r
                          then frame_holds e (supplied rq @ also_written rq) r r'
                          else r' = r)
         (tables d (table_of rq))
         (map (\<lambda>r. if row_id r = Some (VInt (request_id rq)) then r ++ map_of ?cl else r)
            (tables d (table_of rq)))"
    by (simp add: list.rel_map list_all2_same target_row_def fr)
  then show ?thesis
    by (simp add: res log_stmt_def sql_update_def)
qed



theorem repo_Update_frame_witness:
  "request_id (UserUpdate user_bio_only) \<noteq> 0
   \<and> supplied (UserUpdate user_bio_only) \<noteq> []
   \<and> phone_ok (UserUpdate user_bio_only)
   \<and> no_fault env0
   \<and> (\<exists>r \<in> set (tables db_user (table_of (UserUpdate user_bio_only))).
         target_row (UserUpdate user_bio_only) r)
   \<and> fst (repo_Update env0 (UserUpdate user_bio_only) db_user) = None
   \<and> list_all2 (\<lambda>r r'. if target_row (UserUpdate user_bio_only) r
                          then frame_holds env0 (supplied (UserUpdate user_bio_only)
                                 @ also_written (UserUpdate user_bio_only)) r r'
                          else r' = r)
         (tables db_user (table_of (UserUpdate user_bio_only)))
         (tables (snd (repo_Update env0 (UserUpdate user_bio_only) db_user))
            (table_of (UserUpdate user_bio_only)))"
proof -
  have h1: "request_id (UserUpdate user_bio_only) \<noteq> 0"
    by (simp add: user_bio_only_def)
  have h2: "supplied (UserUpdate user_bio_only) \<noteq> []"
    by (simp add: supplied_def non_null_def field_def user_bio_only_def)
  have h3: "phone_ok (UserUpdate user_bio_only)"
    by (simp add: user_bio_only_def)
  have h4: "no_fault env0"
    by (simp add: no_fault_def env0_def)
  have h5: "\<exists>r \<in> set (tables db_user (table_of (UserUpdate user_bio_only))).
      target_row (UserUpdate user_bio_only) r"
    by (simp add: db_user_def target_row_def row_id_def user_row1_def user_bio_only_def)
  from repo_Update_frame [OF h1 h2 h3 h4 h5] h1 h2 h3 h4 h5 show ?thesis
    by blast
qed

text \<open>
  Claim C2 at the attendance repository: a request with a valid identifier and no
  non-null optional field is not rejected. The update statement is executed, the call
  succeeds and the stored \<open>outtime\<close> is NULL afterwards; the task repository rejects
  the same kind of request with the no-fields error and leaves the store as it was. The
  attendance guard can never fire, since the column set always holds \<open>outtime\<close> next to
  \<open>updated_at\<close>.
\<close>

theorem attendance_empty_update_executes:
  "supplied (AttendanceUpdate att_nothing) = []
   \<and> fst (repo_Update env0 (AttendanceUpdate att_nothing) db_att) = None
   \<and> executed (snd (repo_Update env0 (AttendanceUpdate att_nothing) db_att))
        = [UpdateStmt ''attendances'']
   \<and> att_row1 ''outtime'' = Some (VTime 12)
   \<and> hd (tables (snd (repo_Update env0 (AttendanceUpdate att_nothing) db_att)) ''attendances'')
        ''outtime'' = Some VNull
   \<and> repo_Update env0 (TaskUpdate task_nothing) db_att = (Some NoFieldsToUpdate, db_att)"
  by (simp add: att_eval att_nothing_def supplied_def non_null_def field_def
      taskRepo_Update_def taskRepo_clauses_def task_nothing_def)


section \<open>Properties of repository List and Get\<close>

lemma insert_desc_set: "set (insert_desc f x ys) = insert x (set ys)"
  by (induction ys) auto

lemma insert_desc_length: "length (insert_desc f x ys) = Suc (length ys)"
  by (induction ys) auto

lemma insert_desc_distinct:
  "distinct (map g (insert_desc f x ys)) \<longleftrightarrow> g x \<notin> g ` set ys \<and> distinct (map g ys)"
  by (induction ys) (auto simp add: insert_desc_set)

lemma insert_desc_sorted:
  "sorted_wrt (\<lambda>a b. f b \<le> f a) ys \<Longrightarrow> sorted_wrt (\<lambda>a b. f b \<le> f a) (insert_desc f x ys)"
  by (induction ys) (auto simp add: insert_desc_set)

lemma order_desc_set: "set (order_desc f xs) = set xs"
  by (induction xs) (simp_all add: order_desc_def insert_desc_set)

lemma order_desc_length: "length (order_desc f xs) = length xs"
  by (induction xs) (simp_all add: order_desc_def insert_desc_length)

lemma order_desc_distinct: "distinct (map g (order_desc f xs)) \<longleftrightarrow> distinct (map g xs)"
  by (induction xs)
    (simp_all add: order_desc_def insert_desc_distinct order_desc_set [unfolded order_desc_def])

lemma order_desc_sorted: "sorted_wrt (\<lambda>a b. f b \<le> f a) (order_desc f xs)"
  by (induction xs) (simp_all add: order_desc_def insert_desc_sorted)

lemma sql_order_set: "set (sql_order e b rs) = set rs"
  by (simp add: sql_order_def order_desc_set)

lemma sql_order_length: "length (sql_order e b rs) = length rs"
  by (simp add: sql_order_def order_desc_length)

lemma sql_order_distinct: "distinct (map g (sql_order e b rs)) \<longleftrightarrow> distinct (map g rs)"
  by (simp add: sql_order_def order_desc_distinct)

lemma sql_order_sorted:
  "sorted_wrt (\<lambda>x y. order_key (sel_order b) y \<le> order_key (sel_order b) x) (sql_order e b rs)"
  by (simp add: sql_order_def order_desc_sorted)

text \<open>A list without equal keys has one descending arrangement only.\<close>

lemma sorted_desc_unique:
  fixes f :: "'a \<Rightarrow> 'k::linorder"
  assumes "sorted_wrt (\<lambda>x y. f y \<le> f x) xs" and "sorted_wrt (\<lambda>x y. f y \<le> f x) ys"
    and "set xs = set ys" and "distinct (map f xs)" and "distinct (map f ys)"
  shows "xs = ys"
proof -
  have sx: "sorted (rev (map f xs))" and sy: "sorted (rev (map f ys))"
    using assms(1,2) by (simp_all add: sorted_wrt_rev sorted_wrt_map)
  have "set (rev (map f xs)) = set (rev (map f ys))"
    using assms(3) by simp
  with sx sy assms(4,5) have "rev (map f xs) = rev (map f ys)"
    by (intro sorted_distinct_set_unique) simp_all
  then have m: "map f xs = map f ys" by simp
  have "inj_on f (set xs \<union> set ys)"
    using assms(3,4) by (simp add: distinct_map)
  with m show ?thesis by (simp add: inj_on_map_eq_map)
qed

lemma sql_order_keys_distinct:
  assumes "distinct (map (order_key (sel_order b)) rs)"
  shows "sql_order e b rs = order_desc (order_key (sel_order b)) rs"
  by (rule sorted_desc_unique [where f = "order_key (sel_order b)"])
    (simp_all add: sql_order_sorted order_desc_sorted sql_order_set order_desc_set
      sql_order_distinct order_desc_distinct assms)

lemma fold_where:
  "foldl (\<lambda>(b, c) (key, v). (Where (Eq key v) b, Where (Eq key v) c)) (b0, c0) flt =
     (b0\<lparr>sel_where := sel_where b0 @ map (\<lambda>(key, v). Eq key v) flt\<rparr>,
      c0\<lparr>sel_where := sel_where c0 @ map (\<lambda>(key, v). Eq key v) flt\<rparr>)"
  by (induction flt arbitrary: b0 c0) (auto simp add: Where_def)

lemma List_builders_eq:
  "List_builders ent limit offset flt search =
     (\<lparr>sel_columns = list_columns ent, sel_from = tableName ent,
       sel_where = list_conds ent flt search, sel_order = order_columns ent,
       sel_limit = Some limit, sel_offset = Some offset\<rparr>,
      \<lparr>sel_columns = [''COUNT(*)''], sel_from = tableName ent,
       sel_where = list_conds ent flt search, sel_order = [],
       sel_limit = None, sel_offset = None\<rparr>)"
  unfolding List_builders_def fold_where
  by (simp add: Select_def Where_def OrderBy_def Limit_def Offset_def list_conds_def Let_def)

lemma order_key_restrict:
  "set cols \<subseteq> C \<Longrightarrow> order_key cols (r |` C) = order_key cols r"
  by (auto simp add: order_key_def time_of_def restrict_map_def)

lemma order_subset: "set (order_columns ent) \<subseteq> set (list_columns ent)"
  by (cases ent) simp_all

lemma id_listed: "''id'' \<in> set (list_columns ent)"
  by (cases ent) simp_all

lemma row_id_listed: "row_id (r |` set (list_columns ent)) = row_id r"
  by (simp add: row_id_def restrict_map_def id_listed)

lemma run_select_List:
  "run_select e (fst (List_builders ent limit offset flt search)) d =
     take limit (drop offset (statement_rows ent e limit offset flt search d))"
  by (simp add: List_builders_eq run_select_def statement_rows_def matching_def
      take_map drop_map)

lemma run_count_List:
  "run_count e (snd (List_builders ent limit offset flt search)) d =
     length (matching ent e flt search d)"
  by (simp add: List_builders_eq run_count_def matching_def)

lemma statement_rows_length:
  "length (statement_rows ent e limit offset flt search d) = length (matching ent e flt search d)"
  by (simp add: statement_rows_def sql_order_length)

lemma listing_length: "length (listing ent e flt search d) = length (matching ent e flt search d)"
  by (simp add: listing_def order_desc_length)

lemma statement_rows_sorted:
  "sorted_wrt (\<lambda>a b. order_key (order_columns ent) b \<le> order_key (order_columns ent) a)
     (statement_rows ent e limit offset flt search d)"
proof -
  let ?b = "fst (List_builders ent limit offset flt search)"
  have o: "sel_order ?b = order_columns ent"
    by (simp add: List_builders_eq)
  have "sorted_wrt (\<lambda>a b. order_key (order_columns ent) (b |` set (list_columns ent))
            \<le> order_key (order_columns ent) (a |` set (list_columns ent)))
     (sql_order e ?b (matching ent e flt search d))"
    using sql_order_sorted [of ?b e "matching ent e flt search d"]
    by (simp add: order_key_restrict [OF order_subset] o)
  then show ?thesis
    by (simp add: statement_rows_def sorted_wrt_map)
qed

lemma statement_rows_keys:
  assumes "keys_distinct ent e flt search d"
  shows "statement_rows ent e limit offset flt search d = listing ent e flt search d"
proof -
  let ?b = "fst (List_builders ent limit offset flt search)"
  have o: "sel_order ?b = order_columns ent"
    by (simp add: List_builders_eq)
  have "sql_order e ?b (matching ent e flt search d)
      = order_desc (order_key (sel_order ?b)) (matching ent e flt search d)"
    using assms by (intro sql_order_keys_distinct) (simp add: keys_distinct_def o)
  then show ?thesis
    by (simp add: statement_rows_def listing_def o)
qed

lemma listing_distinct:
  assumes "distinct (map row_id (tables d (tableName ent)))"
  shows "distinct (map row_id (listing ent e flt search d))"
proof -
  have "map row_id (listing ent e flt search d) =
      map row_id (order_desc (order_key (order_columns ent)) (matching ent e flt search d))"
    by (simp add: listing_def row_id_listed)
  then show ?thesis
    using assms by (simp add: order_desc_distinct matching_def distinct_map_filter)
qed

lemma repo_List_ok:
  assumes "query_error e = None" "scan_error e = None" "count_error e = None"
  shows "fst (repo_List ent e limit offset flt search d) =
     Inr (take limit (drop offset (statement_rows ent e limit offset flt search d)),
          length (matching ent e flt search d))"
proof -
  obtain b c where bc: "List_builders ent limit offset flt search = (b, c)"
    by (cases "List_builders ent limit offset flt search")
  have "run_select e b d = take limit (drop offset (statement_rows ent e limit offset flt search d))"
    using run_select_List [of e ent limit offset flt search d] bc by simp
  moreover have "run_count e c d = length (matching ent e flt search d)"
    using run_count_List [of e ent limit offset flt search d] bc by simp
  ultimately show ?thesis
    using assms by (simp add: repo_List_def bc Let_def)
qed

lemma repo_List_items:
  assumes "fst (repo_List ent e limit offset flt search d) = Inr (items, n)"
  shows "items = take limit (drop offset (statement_rows ent e limit offset flt search d))"
    and "n = length (matching ent e flt search d)"
proof -
  obtain b c where bc: "List_builders ent limit offset flt search = (b, c)"
    by (cases "List_builders ent limit offset flt search")
  have s: "run_select e b d = take limit (drop offset (statement_rows ent e limit offset flt search d))"
    using run_select_List [of e ent limit offset flt search d] bc by simp
  have t: "run_count e c d = length (matching ent e flt search d)"
    using run_count_List [of e ent limit offset flt search d] bc by simp
  from assms have "items = run_select e b d \<and> n = run_count e c d"
    by (auto simp add: repo_List_def bc Let_def split: option.splits if_splits)
  with s t show "items = take limit (drop offset (statement_rows ent e limit offset flt search d))"
    and "n = length (matching ent e flt search d)" by simp_all
qed

lemma concat_pages:
  "concat (map (\<lambda>k. take l (drop (k * l) xs)) [0..<n]) = take (n * l) xs"
proof (induction n)
  case 0
  then show ?case by simp
next
  case (Suc n)
  have "take (n * l + l) xs = take (n * l) xs @ take l (drop (n * l) xs)"
    by (rule take_add)
  with Suc show ?case by (simp add: add.commute)
qed

lemma page_sizes:
  "(\<Sum>k<n. length (take l (drop (k * l) xs))) = min (n * l) (length xs)"
proof -
  have "(\<Sum>k<n. length (take l (drop (k * l) xs)))
      = length (concat (map (\<lambda>k. take l (drop (k * l) xs)) [0..<n]))"
    by (simp add: length_concat comp_def sum_list_sum_nth atLeast0LessThan)
  then show ?thesis
    by (simp add: concat_pages min.commute)
qed

lemma env0_ok: "query_error env0 = None" "scan_error env0 = None" "count_error env0 = None"
  by (simp_all add: env0_def)

lemma env_ties_ok:
  "query_error env_ties = None" "scan_error env_ties = None" "count_error env_ties = None"
  by (simp_all add: env_ties_def env0_def)

lemma att_keys:
  "order_key [''date'', ''intime''] att_row1 = [10, 11]"
  "order_key [''date'', ''intime''] att_row2 = [30, 31]"
  by (simp_all add: order_key_def time_of_def att_row1_def att_row2_def)

lemma att_statement:
  "statement_rows Attendance env0 limit offset [] [] db_att =
     [att_row2 |` set (list_columns Attendance), att_row1 |` set (list_columns Attendance)]"
  by (simp add: statement_rows_def matching_def list_conds_def matches_def db_att_def
      List_builders_eq sql_order_def order_desc_def att_keys env0_def)

lemma att_matching: "length (matching Attendance env0 [] [] db_att) = 2"
  by (simp add: matching_def list_conds_def matches_def db_att_def)

lemma att_list_eval:
  "fst (repo_List Attendance env0 10 0 [] [] db_att) =
     Inr ([att_row2 |` set (list_columns Attendance), att_row1 |` set (list_columns Attendance)], 2)"
  by (simp add: repo_List_ok [OF env0_ok] att_statement att_matching)

lemma att_created:
  "time_of (att_row1 |` set (list_columns Attendance)) ''created_at'' = 20"
  "time_of (att_row2 |` set (list_columns Attendance)) ''created_at'' = 15"
  by (simp_all add: time_of_def restrict_map_def att_row1_def att_row2_def)

lemma task_row_facts:
  "row_id (task_row i title status created) = Some (VInt i)"
  "order_key [''created_at''] (task_row i title status created) = [created]"
  "task_row i title status created ''status'' = Some (VStr status)"
  "task_row i title status created ''title'' = Some (VStr title)"
  "task_row i title status created ''description'' = Some VNull"
  "task_row i title status created ''priority'' = Some (VStr ''low'')"
  by (simp_all add: task_row_def row_id_def order_key_def time_of_def)

lemma fix_matches:
  "matches env0 (list_conds Task [(''status'', ''pending'')] ''fix'') (task_row i title status created)
     \<longleftrightarrow> status = ''pending''
         \<and> (strings_Contains title ''fix'' \<or> strings_Contains status ''fix'')"
  by (simp add: matches_def list_conds_def task_row_facts env0_def)

lemma fix_matches_ties:
  "matches env_ties (list_conds Task [(''status'', ''pending'')] ''fix'')
     (task_row i title status created)
     \<longleftrightarrow> status = ''pending''
         \<and> (strings_Contains title ''fix'' \<or> strings_Contains status ''fix'')"
  by (simp add: matches_def list_conds_def task_row_facts env_ties_def env0_def)

lemma tasks_matching:
  "matching Task env0 [(''status'', ''pending'')] ''fix'' db_tasks =
     [task_row 1 ''fix login'' ''pending'' 30, task_row 4 ''fix cache'' ''pending'' 5]"
  by (simp add: matching_def db_tasks_def fix_matches)

lemma tasks_listing:
  "listing Task env0 [(''status'', ''pending'')] ''fix'' db_tasks =
     [task_row 1 ''fix login'' ''pending'' 30 |` set (list_columns Task),
      task_row 4 ''fix cache'' ''pending'' 5 |` set (list_columns Task)]"
  by (simp add: listing_def tasks_matching order_desc_def task_row_facts)

lemma tied_matching:
  "matching Task env_ties [(''status'', ''pending'')] ''fix'' db_tied =
     [task_row 1 ''fix login'' ''pending'' 50, task_row 2 ''fix logout'' ''pending'' 50]"
  by (simp add: matching_def db_tied_def fix_matches_ties)

lemma tied_statement:
  "statement_rows Task env_ties limit 0 [(''status'', ''pending'')] ''fix'' db_tied =
     [task_row 1 ''fix login'' ''pending'' 50 |` set (list_columns Task),
      task_row 2 ''fix logout'' ''pending'' 50 |` set (list_columns Task)]"
  "statement_rows Task env_ties limit (Suc 0) [(''status'', ''pending'')] ''fix'' db_tied =
     [task_row 2 ''fix logout'' ''pending'' 50 |` set (list_columns Task),
      task_row 1 ''fix login'' ''pending'' 50 |` set (list_columns Task)]"
  unfolding statement_rows_def tied_matching
  by (simp_all add: sql_order_def order_desc_def List_builders_eq task_row_facts env_ties_def)

lemma fold_where_get:
  "foldl (\<lambda>b (key, v). Where (Eq key v) b) b0 params =
     b0\<lparr>sel_where := sel_where b0 @ map (\<lambda>(key, v). Eq key v) params\<rparr>"
  by (induction params arbitrary: b0) (auto simp add: Where_def)

lemma matches_eqs:
  "matches e (map (\<lambda>(key, v). Eq key v) params) =
     (\<lambda>r. \<forall>(key, v) \<in> set params. eval_cond e r (Eq key v))"
  by (auto simp add: matches_def list_all_iff fun_eq_iff)

lemma run_select_Get:
  "run_select e (foldl (\<lambda>b (key, v). Where (Eq key v) b)
                   (Select (get_columns ent) (tableName ent)) params) d =
     map (\<lambda>r. r |` set (get_columns ent))
       (sql_order e (foldl (\<lambda>b (key, v). Where (Eq key v) b)
                       (Select (get_columns ent) (tableName ent)) params)
          (get_rows ent e params d))"
proof -
  let ?b = "foldl (\<lambda>b (key, v). Where (Eq key v) b)
              (Select (get_columns ent) (tableName ent)) params"
  have "sel_where ?b = map (\<lambda>(key, v). Eq key v) params" "sel_from ?b = tableName ent"
    "sel_columns ?b = get_columns ent" "sel_limit ?b = None" "sel_offset ?b = None"
    unfolding fold_where_get by (simp_all add: Select_def)
  then show ?thesis
    unfolding get_rows_def matches_eqs [symmetric]
    by (simp add: run_select_def)
qed

text \<open>
  Claim C3 as stated fails for the attendance repository: its page is ordered by
  \<open>date\<close> and then \<open>intime\<close>, not by \<open>created_at\<close>. Of two rows, the one with the
  later date comes first although it was created earlier.
\<close>

theorem attendance_List_not_by_created_at:
  "fst (repo_List Attendance env0 10 0 [] [] db_att) =
     Inr ([att_row2 |` set (list_columns Attendance), att_row1 |` set (list_columns Attendance)], 2)
   \<and> time_of (att_row2 |` set (list_columns Attendance)) ''created_at'' = 15
   \<and> time_of (att_row1 |` set (list_columns Attendance)) ''created_at'' = 20
   \<and> \<not> sorted_wrt by_created_at_desc
        [att_row2 |` set (list_columns Attendance), att_row1 |` set (list_columns Attendance)]"
  using att_list_eval att_created by (simp add: by_created_at_desc_def)

text \<open>
  Claim C3, amended. A page returned by \<open>List\<close> is ordered by \<open>created_at\<close> descending
  for users, tasks, salaries, bonuses and files, and by \<open>date\<close> descending with \<open>intime\<close>
  descending as the tiebreak for attendance.
\<close>

theorem List_order:
  assumes "fst (repo_List ent e limit offset flt search d) = Inr (items, n)"
  shows "(ent \<noteq> Attendance \<longrightarrow> sorted_wrt by_created_at_desc items)
       \<and> (ent = Attendance \<longrightarrow> sorted_wrt by_date_intime_desc items)"
proof -
  have "sorted_wrt (\<lambda>a b. order_key (order_columns ent) b \<le> order_key (order_columns ent) a) items"
    unfolding repo_List_items(1) [OF assms]
    by (intro sorted_wrt_take sorted_wrt_drop statement_rows_sorted)
  moreover have "ent \<noteq> Attendance \<Longrightarrow>
      (\<lambda>a b. order_key (order_columns ent) b \<le> order_key (order_columns ent) a) = by_created_at_desc"
    by (cases ent) (auto simp add: order_key_def by_created_at_desc_def fun_eq_iff)
  moreover have "ent = Attendance \<Longrightarrow>
      (\<lambda>a b. order_key (order_columns ent) b \<le> order_key (order_columns ent) a) = by_date_intime_desc"
    by (auto simp add: order_key_def by_date_intime_desc_def fun_eq_iff)
  ultimately show ?thesis by auto
qed

theorem List_order_witness:
  "fst (repo_List Attendance env0 10 0 [] [] db_att) =
     Inr ([att_row2 |` set (list_columns Attendance), att_row1 |` set (list_columns Attendance)], 2)
   \<and> sorted_wrt by_date_intime_desc
        [att_row2 |` set (list_columns Attendance), att_row1 |` set (list_columns Attendance)]"
  using List_order [OF att_list_eval] att_list_eval by simp

text \<open>
  Claim C7 as stated fails in its second half. No \<open>List\<close> orders by a unique key, and
  the store settles the order of rows with equal keys for each statement on its own.
  Two tasks created at the same instant both match the filter and the search; the
  statement for the first page gets them in one order, the statement for the second page
  in the other, and both pages hold the same task although the total is two.
\<close>

theorem List_pages_repeat_tied_row:
  "distinct (map row_id (tables db_tied (tableName Task)))
   \<and> fst (repo_List Task env_ties 1 0 [(''status'', ''pending'')] ''fix'' db_tied)
       = Inr ([task_row 1 ''fix login'' ''pending'' 50 |` set (list_columns Task)], 2)
   \<and> fst (repo_List Task env_ties 1 1 [(''status'', ''pending'')] ''fix'' db_tied)
       = Inr ([task_row 1 ''fix login'' ''pending'' 50 |` set (list_columns Task)], 2)
   \<and> page_items Task env_ties 1 [(''status'', ''pending'')] ''fix'' db_tied 0
       = page_items Task env_ties 1 [(''status'', ''pending'')] ''fix'' db_tied 1
   \<and> \<not> distinct (map row_id
          (page_items Task env_ties 1 [(''status'', ''pending'')] ''fix'' db_tied 0
           @ page_items Task env_ties 1 [(''status'', ''pending'')] ''fix'' db_tied 1))"
proof -
  have d: "distinct (map row_id (tables db_tied (tableName Task)))"
    by (simp add: db_tied_def task_row_facts)
  have n: "length (matching Task env_ties [(''status'', ''pending'')] ''fix'' db_tied) = 2"
    by (simp add: tied_matching)
  have p0: "fst (repo_List Task env_ties 1 0 [(''status'', ''pending'')] ''fix'' db_tied)
       = Inr ([task_row 1 ''fix login'' ''pending'' 50 |` set (list_columns Task)], 2)"
    by (simp add: repo_List_ok [OF env_ties_ok] tied_statement n)
  have p1: "fst (repo_List Task env_ties 1 1 [(''status'', ''pending'')] ''fix'' db_tied)
       = Inr ([task_row 1 ''fix login'' ''pending'' 50 |` set (list_columns Task)], 2)"
    by (simp add: repo_List_ok [OF env_ties_ok] tied_statement n)
  have q0: "page_items Task env_ties 1 [(''status'', ''pending'')] ''fix'' db_tied 0
      = [task_row 1 ''fix login'' ''pending'' 50 |` set (list_columns Task)]"
    using p0 by (simp add: page_items_def)
  have q1: "page_items Task env_ties 1 [(''status'', ''pending'')] ''fix'' db_tied 1
      = [task_row 1 ''fix login'' ''pending'' 50 |` set (list_columns Task)]"
    using p1 by (simp add: page_items_def)
  show ?thesis
    unfolding q0 q1 using d p0 p1 by simp
qed

text \<open>
  Claim C7, amended. The count statement of a \<open>List\<close> call carries the same conditions,
  on the same table, as the page statement. Hence, while the table stays as it is and
  the store reports no failure, every page of a listing with a positive limit reports
  the same total, the number of matching rows, and the sizes of the pages up to the last
  one add up to that total, however the store orders rows with equal sort keys. No row
  appears twice across the pages when, in addition, the rows have distinct identifiers
  and no two matching rows have the same sort key (\<open>created_at\<close>; \<open>date\<close> and
  \<open>intime\<close> for attendance).
\<close>

theorem List_pagination:
  assumes "query_error e = None" and "scan_error e = None" and "count_error e = None"
    and "0 < limit"
  shows "sel_where (fst (List_builders ent limit offset flt search))
           = sel_where (snd (List_builders ent limit offset flt search))
       \<and> sel_from (fst (List_builders ent limit offset flt search))
           = sel_from (snd (List_builders ent limit offset flt search))
       \<and> run_count e (snd (List_builders ent limit offset flt search)) d
           = length (matching ent e flt search d)
       \<and> (\<forall>k. fst (repo_List ent e limit (k * limit) flt search d)
                 = Inr (page_items ent e limit flt search d k,
                        length (matching ent e flt search d)))
       \<and> (\<forall>n. length (matching ent e flt search d) \<le> n * limit \<longrightarrow>
              (\<Sum>k<n. length (page_items ent e limit flt search d k))
                = length (matching ent e flt search d))
       \<and> (\<Sum>k<length (matching ent e flt search d).
              length (page_items ent e limit flt search d k))
           = length (matching ent e flt search d)
       \<and> (distinct (map row_id (tables d (tableName ent))) \<and> keys_distinct ent e flt search d
            \<longrightarrow> (\<forall>n. distinct (map row_id
                          (concat (map (page_items ent e limit flt search d) [0..<n])))))"
proof -
  let ?N = "length (matching ent e flt search d)"
  let ?xs = "listing ent e flt search d"
  have pg: "\<And>k. page_items ent e limit flt search d k
      = take limit (drop (k * limit) (statement_rows ent e limit (k * limit) flt search d))"
    by (simp add: page_items_def repo_List_ok [OF assms(1-3)])
  have a: "\<forall>k. fst (repo_List ent e limit (k * limit) flt search d)
      = Inr (page_items ent e limit flt search d k, ?N)"
    by (simp add: pg repo_List_ok [OF assms(1-3)])
  have len: "\<And>k. length (page_items ent e limit flt search d k)
      = length (take limit (drop (k * limit) ?xs))"
    by (simp add: pg statement_rows_length listing_length)
  have sm: "\<And>n. (\<Sum>k<n. length (page_items ent e limit flt search d k)) = min (n * limit) ?N"
    using page_sizes [where l = limit and xs = ?xs] by (simp add: len listing_length)
  have b: "\<forall>n. ?N \<le> n * limit \<longrightarrow>
      (\<Sum>k<n. length (page_items ent e limit flt search d k)) = ?N"
    by (simp add: sm)
  have "?N \<le> ?N * limit"
    using assms(4) by simp
  then have b': "(\<Sum>k<?N. length (page_items ent e limit flt search d k)) = ?N"
    by (simp add: sm)
  have c: "distinct (map row_id (tables d (tableName ent))) \<and> keys_distinct ent e flt search d
      \<longrightarrow> (\<forall>n. distinct (map row_id
                    (concat (map (page_items ent e limit flt search d) [0..<n]))))"
  proof (intro impI allI, elim conjE)
    fix n
    assume ids: "distinct (map row_id (tables d (tableName ent)))"
      and keys: "keys_distinct ent e flt search d"
    have "page_items ent e limit flt search d = (\<lambda>k. take limit (drop (k * limit) ?xs))"
      by (rule ext) (simp add: pg statement_rows_keys [OF keys])
    then have "concat (map (page_items ent e limit flt search d) [0..<n]) = take (n * limit) ?xs"
      using concat_pages [of limit ?xs n] by simp
    then show "distinct (map row_id (concat (map (page_items ent e limit flt search d) [0..<n])))"
      by (simp add: take_map [symmetric] listing_distinct [OF ids])
  qed
  show ?thesis
    using a b b' c run_count_List [of e ent limit offset flt search d]
    by (simp add: List_builders_eq)
qed

theorem List_pagination_witness:
  "query_error env0 = None \<and> scan_error env0 = None \<and> count_error env0 = None \<and> (0::nat) < 1
   \<and> distinct (map row_id (tables db_tasks (tableName Task)))
   \<and> keys_distinct Task env0 [(''status'', ''pending'')] ''fix'' db_tasks
   \<and> length (tables db_tasks (tableName Task)) = 4
   \<and> length (matching Task env0 [(''status'', ''pending'')] ''fix'' db_tasks) = 2
   \<and> fst (repo_List Task env0 1 (0 * 1) [(''status'', ''pending'')] ''fix'' db_tasks)
       = Inr ([task_row 1 ''fix login'' ''pending'' 30 |` set (list_columns Task)], 2)
   \<and> fst (repo_List Task env0 1 (1 * 1) [(''status'', ''pending'')] ''fix'' db_tasks)
       = Inr ([task_row 4 ''fix cache'' ''pending'' 5 |` set (list_columns Task)], 2)
   \<and> (\<Sum>k<2. length (page_items Task env0 1 [(''status'', ''pending'')] ''fix'' db_tasks k)) = 2
   \<and> (\<forall>n. distinct (map row_id
              (concat (map (page_items Task env0 1 [(''status'', ''pending'')] ''fix'' db_tasks)
                 [0..<n]))))"
proof -
  have h4: "(0::nat) < 1" by simp
  have ids: "distinct (map row_id (tables db_tasks (tableName Task)))"
    by (simp add: db_tasks_def task_row_facts)
  have keys: "keys_distinct Task env0 [(''status'', ''pending'')] ''fix'' db_tasks"
    by (simp add: keys_distinct_def tasks_matching task_row_facts)
  have l: "length (tables db_tasks (tableName Task)) = 4"
    by (simp add: db_tasks_def)
  have n: "length (matching Task env0 [(''status'', ''pending'')] ''fix'' db_tasks) = 2"
    by (simp add: tasks_matching)
  have p0: "page_items Task env0 1 [(''status'', ''pending'')] ''fix'' db_tasks 0
      = [task_row 1 ''fix login'' ''pending'' 30 |` set (list_columns Task)]"
    by (simp add: page_items_def repo_List_ok [OF env0_ok] statement_rows_keys [OF keys]
        tasks_listing)
  have p1: "page_items Task env0 1 [(''status'', ''pending'')] ''fix'' db_tasks 1
      = [task_row 4 ''fix cache'' ''pending'' 5 |` set (list_columns Task)]"
    by (simp add: page_items_def repo_List_ok [OF env0_ok] statement_rows_keys [OF keys]
        tasks_listing)
  note inst = List_pagination [OF env0_ok h4, of Task 0 "[(''status'', ''pending'')]" "''fix''" db_tasks]
  from inst have pages: "\<forall>k. fst (repo_List Task env0 1 (k * 1) [(''status'', ''pending'')] ''fix'' db_tasks)
      = Inr (page_items Task env0 1 [(''status'', ''pending'')] ''fix'' db_tasks k,
             length (matching Task env0 [(''status'', ''pending'')] ''fix'' db_tasks))"
    by blast
  from inst have total: "(\<Sum>k<length (matching Task env0 [(''status'', ''pending'')] ''fix'' db_tasks).
        length (page_items Task env0 1 [(''status'', ''pending'')] ''fix'' db_tasks k))
      = length (matching Task env0 [(''status'', ''pending'')] ''fix'' db_tasks)"
    by blast
  from inst ids keys have nodup: "\<forall>n. distinct (map row_id
              (concat (map (page_items Task env0 1 [(''status'', ''pending'')] ''fix'' db_tasks)
                 [0..<n])))"
    by blast
  from pages [rule_format, of 0] pages [rule_format, of 1] total nodup
  show ?thesis
    unfolding n p0 p1 using env0_ok h4 ids keys l n by simp
qed

text \<open>
  Claim C6. \<open>Get\<close> with an empty filter map fails with the filter-required error and
  leaves the store, its record of executed statements included, as it was. With a
  non-empty map it executes one select; a row it returns is a stored row that satisfies
  the equality condition of every key, and it returns one whenever such a row exists and
  the store reports no failure.
\<close>

theorem Get_filter:
  "repo_Get ent e [] d = (Inl FilterRequired, d)
   \<and> (params \<noteq> [] \<longrightarrow>
        executed (snd (repo_Get ent e params d)) = executed d @ [SelectStmt (tableName ent)])
   \<and> (\<forall>r. fst (repo_Get ent e params d) = Inr r \<longrightarrow>
        (\<exists>r0 \<in> set (tables d (tableName ent)).
           r = r0 |` set (get_columns ent)
           \<and> (\<forall>(key, v) \<in> set params. eval_cond e r0 (Eq key v))))
   \<and> (params \<noteq> [] \<and> query_error e = None
        \<and> (\<exists>r0 \<in> set (tables d (tableName ent)).
              \<forall>(key, v) \<in> set params. eval_cond e r0 (Eq key v))
        \<longrightarrow> (\<exists>r. fst (repo_Get ent e params d) = Inr r))"
proof -
  let ?b = "foldl (\<lambda>b (key, v). Where (Eq key v) b)
              (Select (get_columns ent) (tableName ent)) params"
  let ?rs = "sql_order e ?b (get_rows ent e params d)"
  have a: "repo_Get ent e [] d = (Inl FilterRequired, d)"
    by (simp add: repo_Get_def)
  have b: "params \<noteq> [] \<longrightarrow>
        executed (snd (repo_Get ent e params d)) = executed d @ [SelectStmt (tableName ent)]"
    by (simp add: repo_Get_def Let_def log_stmt_def split: option.split list.split)
  have c: "\<forall>r. fst (repo_Get ent e params d) = Inr r \<longrightarrow>
        (\<exists>r0 \<in> set (tables d (tableName ent)).
           r = r0 |` set (get_columns ent)
           \<and> (\<forall>(key, v) \<in> set params. eval_cond e r0 (Eq key v)))"
  proof (intro allI impI)
    fix r assume "fst (repo_Get ent e params d) = Inr r"
    then obtain rs' where "map (\<lambda>r. r |` set (get_columns ent)) ?rs = r # rs'"
      by (auto simp add: repo_Get_def Let_def run_select_Get split: if_splits option.splits list.splits)
    then obtain r0 where "r0 \<in> set ?rs" and "r = r0 |` set (get_columns ent)"
      by (cases ?rs) auto
    then show "\<exists>r0 \<in> set (tables d (tableName ent)).
           r = r0 |` set (get_columns ent)
           \<and> (\<forall>(key, v) \<in> set params. eval_cond e r0 (Eq key v))"
      by (auto simp add: sql_order_set get_rows_def)
  qed
  have d: "params \<noteq> [] \<and> query_error e = None
        \<and> (\<exists>r0 \<in> set (tables d (tableName ent)).
              \<forall>(key, v) \<in> set params. eval_cond e r0 (Eq key v))
        \<longrightarrow> (\<exists>r. fst (repo_Get ent e params d) = Inr r)"
  proof (intro impI, elim conjE)
    assume p: "params \<noteq> []" and q: "query_error e = None"
      and "\<exists>r0 \<in> set (tables d (tableName ent)).
              \<forall>(key, v) \<in> set params. eval_cond e r0 (Eq key v)"
    then have "get_rows ent e params d \<noteq> []"
      by (auto simp add: get_rows_def filter_empty_conv)
    then have "length ?rs \<noteq> 0"
      by (simp add: sql_order_length)
    then obtain r0 rs' where "?rs = r0 # rs'" by (cases ?rs) auto
    then show "\<exists>r. fst (repo_Get ent e params d) = Inr r"
      using p q by (simp add: repo_Get_def Let_def run_select_Get)
  qed
  from a b c d show ?thesis by blast
qed

theorem Get_filter_witness:
  "[(''email'', ''a@b.com'')] \<noteq> [] \<and> query_error env0 = None
   \<and> (\<exists>r0 \<in> set (tables db_user (tableName User)).
         \<forall>(key, v) \<in> set [(''email'', ''a@b.com'')]. eval_cond env0 r0 (Eq key v))
   \<and> (\<exists>r. fst (repo_Get User env0 [(''email'', ''a@b.com'')] db_user) = Inr r)
   \<and> executed (snd (repo_Get User env0 [(''email'', ''a@b.com'')] db_user))
        = executed db_user @ [SelectStmt (tableName User)]
   \<and> repo_Get User env0 [] db_user = (Inl FilterRequired, db_user)"
proof -
  have h1: "[(''email'', ''a@b.com'')] \<noteq> ([] :: (string \<times> string) list)" by simp
  have h2: "query_error env0 = None" by (simp add: env0_def)
  have h3: "\<exists>r0 \<in> set (tables db_user (tableName User)).
         \<forall>(key, v) \<in> set [(''email'', ''a@b.com'')]. eval_cond env0 r0 (Eq key v)"
    by (simp add: db_user_def user_row1_def env0_def)
  from Get_filter [of User env0 db_user "[(''email'', ''a@b.com'')]"] h1 h2 h3
  show ?thesis by blast
qed

section \<open>Properties of the user update handler\<close>

lemma user_clauses_fields:
  assumes "userRepo_clauses t req = Inr cl"
  shows "cl = apply_fields (optional_fields (UserUpdate req)) [(''updated_at'', VTime t)]"
  using assms
  by (auto simp add: userRepo_clauses_def Let_def apply_fields_def split: if_splits)

lemma user_clauses_error:
  "userRepo_clauses t req = Inl err \<Longrightarrow> err = InvalidPhoneNumberFormat"
  by (auto simp add: userRepo_clauses_def Let_def split: if_splits)

lemma db_Error_not_no_fields: "db_Error f \<noteq> NoFieldsToUpdate"
  by (cases f) auto

lemma parse_one: "strconv_ParseInt ''1'' = Some 1"
  by (simp add: strconv_ParseInt_def strconv_Atoi_def is_digit_def)

text \<open>A user request that carries a role: what the repository does with it.\<close>

lemma role_request:
  assumes "user_Role req = Some role" and "user_ID req = i" and "0 < i"
  shows "\<forall>cl. userRepo_clauses (now e) req = Inr cl
           \<longrightarrow> map_of cl ''role'' = Some (VStr role) \<and> 2 \<le> length cl"
    and "fst (userRepo_Update e (Some req) d) \<noteq> Some NoFieldsToUpdate"
    and "phone_ok (UserUpdate req) \<and> no_fault e
         \<and> (\<exists>r0 \<in> set (tables d ''users''). row_id r0 = Some (VInt i))
         \<longrightarrow> fst (userRepo_Update e (Some req) d) = None
           \<and> executed (snd (userRepo_Update e (Some req) d)) = executed d @ [UpdateStmt ''users'']
           \<and> list_all2 (\<lambda>r0 r'. if row_id r0 = Some (VInt i)
                                  then r' ''role'' = Some (VStr role) else r' = r0)
                (tables d ''users'') (tables (snd (userRepo_Update e (Some req) d)) ''users'')"
proof -
  let ?rq = "UserUpdate req"
  let ?cl = "apply_fields (tested_fields ?rq) [(''updated_at'', VTime (now e))]"
  have mf: "map_of (tested_fields ?rq) ''role'' = Some (Some (VStr role))"
    using assms(1) by simp
  have "map_of ?cl ''role'' =
      (case map_of (tested_fields ?rq) ''role'' of
         Some (Some v) \<Rightarrow> Some v
       | _ \<Rightarrow> map_of [(''updated_at'', VTime (now e))] ''role'')"
    by (rule map_of_apply_fields [OF tested_keys(1)])
  also have "\<dots> = Some (VStr role)"
    unfolding mf by simp
  finally have m: "map_of ?cl ''role'' = Some (VStr role)" .
  have "(''role'', VStr role) \<in> set (supplied ?rq)"
    using assms(1) by (simp add: supplied_def set_non_null)
  then have sup: "supplied ?rq \<noteq> []" by auto
  have len: "2 \<le> length ?cl"
    by (rule supplied_length [OF sup])
  have cl: "\<And>cl. userRepo_clauses (now e) req = Inr cl \<Longrightarrow> cl = ?cl"
    using user_clauses_fields by (simp only: tested_fields.simps)
  show c: "\<forall>cl. userRepo_clauses (now e) req = Inr cl
           \<longrightarrow> map_of cl ''role'' = Some (VStr role) \<and> 2 \<le> length cl"
    using cl m len by blast
  have id: "user_ID req \<noteq> 0"
    using assms(2,3) by simp
  show "fst (userRepo_Update e (Some req) d) \<noteq> Some NoFieldsToUpdate"
  proof (cases "userRepo_clauses (now e) req")
    case (Inl err)
    with user_clauses_error [OF Inl] id show ?thesis
      by (simp add: userRepo_Update_def)
  next
    case (Inr cl)
    with c have "\<not> length cl \<le> 1" by auto
    with Inr id show ?thesis
      by (auto simp add: userRepo_Update_def exec_update_def db_Error_not_no_fields
          split: option.splits)
  qed
  show "phone_ok (UserUpdate req) \<and> no_fault e
         \<and> (\<exists>r0 \<in> set (tables d ''users''). row_id r0 = Some (VInt i))
         \<longrightarrow> fst (userRepo_Update e (Some req) d) = None
           \<and> executed (snd (userRepo_Update e (Some req) d)) = executed d @ [UpdateStmt ''users'']
           \<and> list_all2 (\<lambda>r0 r'. if row_id r0 = Some (VInt i)
                                  then r' ''role'' = Some (VStr role) else r' = r0)
                (tables d ''users'') (tables (snd (userRepo_Update e (Some req) d)) ''users'')"
  proof (intro impI, elim conjE)
    assume ph: "phone_ok (UserUpdate req)" and nf: "no_fault e"
      and ex: "\<exists>r0 \<in> set (tables d ''users''). row_id r0 = Some (VInt i)"
    have ra: "rows_affected ''users'' i d \<noteq> 0"
      using ex by (auto simp add: rows_affected_def filter_empty_conv)
    have rid: "request_id ?rq \<noteq> 0"
      using id by simp
    have "repo_Update e ?rq d = exec_update e ''users'' ''user'' ?cl i d"
      using repo_Update_unfold [OF rid ph len, of d] assms(2) by simp
    then have res: "userRepo_Update e (Some req) d =
        (None, log_stmt (UpdateStmt ''users'') (sql_update ''users'' ?cl i d))"
      using exec_update_ok [OF nf ra] by simp
    have "list_all2 (\<lambda>r0 r'. if row_id r0 = Some (VInt i)
                                  then r' ''role'' = Some (VStr role) else r' = r0)
        (tables d ''users'')
        (map (\<lambda>r. if row_id r = Some (VInt i) then r ++ map_of ?cl else r) (tables d ''users''))"
      by (simp add: list.rel_map list_all2_same map_add_def m del: tested_fields.simps)
    then show "fst (userRepo_Update e (Some req) d) = None
           \<and> executed (snd (userRepo_Update e (Some req) d)) = executed d @ [UpdateStmt ''users'']
           \<and> list_all2 (\<lambda>r0 r'. if row_id r0 = Some (VInt i)
                                  then r' ''role'' = Some (VStr role) else r' = r0)
                (tables d ''users'') (tables (snd (userRepo_Update e (Some req) d)) ''users'')"
      by (simp add: res log_stmt_def sql_update_def del: tested_fields.simps)
  qed
qed

lemma updateUser_role_only_ok:
  "fst (updateUser lib0 env0 ''1'' (Some payload_role_only) db_user) = Response 200
   \<and> hd (tables (snd (updateUser lib0 env0 ''1'' (Some payload_role_only) db_user)) ''users'')
        ''role'' = Some (VStr ''admin'')"
  by (simp add: updateUser_def parse_one payload_role_only_def call_Update_def respond_update_def
      updateReq_of_def lib0_def userRepo_Update_def userRepo_clauses_def set_clause_def
      exec_update_def rows_affected_def sql_update_def log_stmt_def row_id_def env0_def
      db_user_def user_row1_def)

text \<open>
  Claim C9. Once the path identifier has parsed to a positive number and the body has
  bound, the handler dereferences the payload's role before it builds the repository
  request: with the role absent it panics, whatever else the payload holds, and so gives
  neither a 200 nor a 400 response. With the role present it does not panic: unless
  hashing a supplied password fails (response 500, store untouched), its result is the
  response to, and the store left by, \<open>userRepo.Update\<close> on the request built from the
  payload, whose role is the payload's role. The column set built from that request
  always holds \<open>role\<close> next to \<open>updated_at\<close>, also when the payload supplies nothing
  else, so the repository never answers that there are no fields to update; and when
  the user exists, a supplied phone is well-formed and the store reports no failure, the
  update statement is executed and writes that role into the user's row.
\<close>

theorem updateUser_role_dereference:
  assumes "strconv_ParseInt idStr = Some i" and "0 < i"
  shows "(pl_Role payload = None \<longrightarrow>
            updateUser lib e idStr (Some payload) d = (Panic, d)
            \<and> fst (updateUser lib e idStr (Some payload) d) \<noteq> Response 200
            \<and> fst (updateUser lib e idStr (Some payload) d) \<noteq> Response 400)
       \<and> (\<forall>r. pl_Role payload = Some r \<longrightarrow>
             fst (updateUser lib e idStr (Some payload) d) \<noteq> Panic
             \<and> (pl_Password payload = None \<or> pl_Password payload = Some [] \<longrightarrow>
                  updateUser lib e idStr (Some payload) d =
                    (respond_update lib
                       (fst (userRepo_Update e
                               (Some (updateReq_of i payload (GetUserRole lib r))) d)),
                     snd (userRepo_Update e
                            (Some (updateReq_of i payload (GetUserRole lib r))) d)))
             \<and> (\<forall>pw hashed. pl_Password payload = Some pw \<and> pw \<noteq> []
                     \<and> GenerateFromPassword lib pw = Inr hashed \<longrightarrow>
                  updateUser lib e idStr (Some payload) d =
                    (respond_update lib
                       (fst (userRepo_Update e
                               (Some ((updateReq_of i payload (GetUserRole lib r))
                                        \<lparr>user_HashedPassword := Some hashed\<rparr>)) d)),
                     snd (userRepo_Update e
                            (Some ((updateReq_of i payload (GetUserRole lib r))
                                     \<lparr>user_HashedPassword := Some hashed\<rparr>)) d)))
             \<and> (\<forall>pw txt. pl_Password payload = Some pw \<and> pw \<noteq> []
                     \<and> GenerateFromPassword lib pw = Inl txt \<longrightarrow>
                  updateUser lib e idStr (Some payload) d = (Response 500, d))
             \<and> (\<forall>h. user_Role ((updateReq_of i payload (GetUserRole lib r))
                                  \<lparr>user_HashedPassword := h\<rparr>) = Some (GetUserRole lib r)
                  \<and> (\<forall>cl. userRepo_clauses (now e)
                              ((updateReq_of i payload (GetUserRole lib r))
                                 \<lparr>user_HashedPassword := h\<rparr>) = Inr cl
                        \<longrightarrow> map_of cl ''role'' = Some (VStr (GetUserRole lib r))
                            \<and> 2 \<le> length cl)
                  \<and> fst (userRepo_Update e
                            (Some ((updateReq_of i payload (GetUserRole lib r))
                                     \<lparr>user_HashedPassword := h\<rparr>)) d) \<noteq> Some NoFieldsToUpdate
                  \<and> (phone_ok (UserUpdate ((updateReq_of i payload (GetUserRole lib r))
                                             \<lparr>user_HashedPassword := h\<rparr>))
                       \<and> no_fault e
                       \<and> (\<exists>r0 \<in> set (tables d ''users''). row_id r0 = Some (VInt i))
                     \<longrightarrow> fst (userRepo_Update e
                                 (Some ((updateReq_of i payload (GetUserRole lib r))
                                          \<lparr>user_HashedPassword := h\<rparr>)) d) = None
                        \<and> executed (snd (userRepo_Update e
                                 (Some ((updateReq_of i payload (GetUserRole lib r))
                                          \<lparr>user_HashedPassword := h\<rparr>)) d))
                            = executed d @ [UpdateStmt ''users'']
                        \<and> list_all2 (\<lambda>r0 r'. if row_id r0 = Some (VInt i)
                                        then r' ''role'' = Some (VStr (GetUserRole lib r))
                                        else r' = r0)
                             (tables d ''users'')
                             (tables (snd (userRepo_Update e
                                 (Some ((updateReq_of i payload (GetUserRole lib r))
                                          \<lparr>user_HashedPassword := h\<rparr>)) d)) ''users''))))"
proof -
  have a: "pl_Role payload = None \<longrightarrow> updateUser lib e idStr (Some payload) d = (Panic, d)"
    using assms by (simp add: updateUser_def)
  have b: "\<forall>r. pl_Role payload = Some r \<longrightarrow> fst (updateUser lib e idStr (Some payload) d) \<noteq> Panic"
    using assms
    by (auto simp add: updateUser_def call_Update_def respond_update_def Let_def
        split: sum.splits prod.splits option.splits)
  have s1: "\<forall>r. pl_Role payload = Some r \<longrightarrow>
      (pl_Password payload = None \<or> pl_Password payload = Some [] \<longrightarrow>
         updateUser lib e idStr (Some payload) d =
           (respond_update lib
              (fst (userRepo_Update e (Some (updateReq_of i payload (GetUserRole lib r))) d)),
            snd (userRepo_Update e (Some (updateReq_of i payload (GetUserRole lib r))) d)))"
    using assms
    by (auto simp add: updateUser_def call_Update_def Let_def split: prod.splits)
  have s2: "\<forall>r. pl_Role payload = Some r \<longrightarrow>
      (\<forall>pw hashed. pl_Password payload = Some pw \<and> pw \<noteq> []
             \<and> GenerateFromPassword lib pw = Inr hashed \<longrightarrow>
         updateUser lib e idStr (Some payload) d =
           (respond_update lib
              (fst (userRepo_Update e
                      (Some ((updateReq_of i payload (GetUserRole lib r))
                               \<lparr>user_HashedPassword := Some hashed\<rparr>)) d)),
            snd (userRepo_Update e
                   (Some ((updateReq_of i payload (GetUserRole lib r))
                            \<lparr>user_HashedPassword := Some hashed\<rparr>)) d)))"
    using assms
    by (auto simp add: updateUser_def call_Update_def Let_def split: prod.splits)
  have s3: "\<forall>r. pl_Role payload = Some r \<longrightarrow>
      (\<forall>pw txt. pl_Password payload = Some pw \<and> pw \<noteq> []
             \<and> GenerateFromPassword lib pw = Inl txt \<longrightarrow>
         updateUser lib e idStr (Some payload) d = (Response 500, d))"
    using assms by (auto simp add: updateUser_def Let_def)
  have c: "\<And>r h. user_Role ((updateReq_of i payload (GetUserRole lib r))
                                  \<lparr>user_HashedPassword := h\<rparr>) = Some (GetUserRole lib r)"
    and ci: "\<And>r h. user_ID ((updateReq_of i payload (GetUserRole lib r))
                                  \<lparr>user_HashedPassword := h\<rparr>) = i"
    by (simp_all add: updateReq_of_def)
  note rr = role_request [OF c ci assms(2)]
  from a have a': "(pl_Role payload = None \<longrightarrow>
            updateUser lib e idStr (Some payload) d = (Panic, d)
            \<and> fst (updateUser lib e idStr (Some payload) d) \<noteq> Response 200
            \<and> fst (updateUser lib e idStr (Some payload) d) \<noteq> Response 400)"
    by simp
  have main: "(\<forall>r. pl_Role payload = Some r \<longrightarrow>
             fst (updateUser lib e idStr (Some payload) d) \<noteq> Panic
             \<and> (pl_Password payload = None \<or> pl_Password payload = Some [] \<longrightarrow>
                  updateUser lib e idStr (Some payload) d =
                    (respond_update lib
                       (fst (userRepo_Update e
                               (Some (updateReq_of i payload (GetUserRole lib r))) d)),
                     snd (userRepo_Update e
                            (Some (updateReq_of i payload (GetUserRole lib r))) d)))
             \<and> (\<forall>pw hashed. pl_Password payload = Some pw \<and> pw \<noteq> []
                     \<and> GenerateFromPassword lib pw = Inr hashed \<longrightarrow>
                  updateUser lib e idStr (Some payload) d =
                    (respond_update lib
                       (fst (userRepo_Update e
                               (Some ((updateReq_of i payload (GetUserRole lib r))
                                        \<lparr>user_HashedPassword := Some hashed\<rparr>)) d)),
                     snd (userRepo_Update e
                            (Some ((updateReq_of i payload (GetUserRole lib r))
                                     \<lparr>user_HashedPassword := Some hashed\<rparr>)) d)))
             \<and> (\<forall>pw txt. pl_Password payload = Some pw \<and> pw \<noteq> []
                     \<and> GenerateFromPassword lib pw = Inl txt \<longrightarrow>
                  updateUser lib e idStr (Some payload) d = (Response 500, d))
             \<and> (\<forall>h. user_Role ((updateReq_of i payload (GetUserRole lib r))
                                  \<lparr>user_HashedPassword := h\<rparr>) = Some (GetUserRole lib r)
                  \<and> (\<forall>cl. userRepo_clauses (now e)
                              ((updateReq_of i payload (GetUserRole lib r))
                                 \<lparr>user_HashedPassword := h\<rparr>) = Inr cl
                        \<longrightarrow> map_of cl ''role'' = Some (VStr (GetUserRole lib r))
                            \<and> 2 \<le> length cl)
                  \<and> fst (userRepo_Update e
                            (Some ((updateReq_of i payload (GetUserRole lib r))
                                     \<lparr>user_HashedPassword := h\<rparr>)) d) \<noteq> Some NoFieldsToUpdate
                  \<and> (phone_ok (UserUpdate ((updateReq_of i payload (GetUserRole lib r))
                                             \<lparr>user_HashedPassword := h\<rparr>))
                       \<and> no_fault e
                       \<and> (\<exists>r0 \<in> set (tables d ''users''). row_id r0 = Some (VInt i))
                     \<longrightarrow> fst (userRepo_Update e
                                 (Some ((updateReq_of i payload (GetUserRole lib r))
                                          \<lparr>user_HashedPassword := h\<rparr>)) d) = None
                        \<and> executed (snd (userRepo_Update e
                                 (Some ((updateReq_of i payload (GetUserRole lib r))
                                          \<lparr>user_HashedPassword := h\<rparr>)) d))
                            = executed d @ [UpdateStmt ''users'']
                        \<and> list_all2 (\<lambda>r0 r'. if row_id r0 = Some (VInt i)
                                        then r' ''role'' = Some (VStr (GetUserRole lib r))
                                        else r' = r0)
                             (tables d ''users'')
                             (tables (snd (userRepo_Update e
                                 (Some ((updateReq_of i payload (GetUserRole lib r))
                                          \<lparr>user_HashedPassword := h\<rparr>)) d)) ''users''))))"
  proof (intro allI impI)
    fix r assume r: "pl_Role payload = Some r"
    have g5: "\<forall>h. user_Role ((updateReq_of i payload (GetUserRole lib r))
                                  \<lparr>user_HashedPassword := h\<rparr>) = Some (GetUserRole lib r)
                  \<and> (\<forall>cl. userRepo_clauses (now e)
                              ((updateReq_of i payload (GetUserRole lib r))
                                 \<lparr>user_HashedPassword := h\<rparr>) = Inr cl
                        \<longrightarrow> map_of cl ''role'' = Some (VStr (GetUserRole lib r))
                            \<and> 2 \<le> length cl)
                  \<and> fst (userRepo_Update e
                            (Some ((updateReq_of i payload (GetUserRole lib r))
                                     \<lparr>user_HashedPassword := h\<rparr>)) d) \<noteq> Some NoFieldsToUpdate
                  \<and> (phone_ok (UserUpdate ((updateReq_of i payload (GetUserRole lib r))
                                             \<lparr>user_HashedPassword := h\<rparr>))
                       \<and> no_fault e
                       \<and> (\<exists>r0 \<in> set (tables d ''users''). row_id r0 = Some (VInt i))
                     \<longrightarrow> fst (userRepo_Update e
                                 (Some ((updateReq_of i payload (GetUserRole lib r))
                                          \<lparr>user_HashedPassword := h\<rparr>)) d) = None
                        \<and> executed (snd (userRepo_Update e
                                 (Some ((updateReq_of i payload (GetUserRole lib r))
                                          \<lparr>user_HashedPassword := h\<rparr>)) d))
                            = executed d @ [UpdateStmt ''users'']
                        \<and> list_all2 (\<lambda>r0 r'. if row_id r0 = Some (VInt i)
                                        then r' ''role'' = Some (VStr (GetUserRole lib r))
                                        else r' = r0)
                             (tables d ''users'')
                             (tables (snd (userRepo_Update e
                                 (Some ((updateReq_of i payload (GetUserRole lib r))
                                          \<lparr>user_HashedPassword := h\<rparr>)) d)) ''users''))"
    proof (rule allI)
      fix h
      show "user_Role ((updateReq_of i payload (GetUserRole lib r))
                                  \<lparr>user_HashedPassword := h\<rparr>) = Some (GetUserRole lib r)
                  \<and> (\<forall>cl. userRepo_clauses (now e)
                              ((updateReq_of i payload (GetUserRole lib r))
                                 \<lparr>user_HashedPassword := h\<rparr>) = Inr cl
                        \<longrightarrow> map_of cl ''role'' = Some (VStr (GetUserRole lib r))
                            \<and> 2 \<le> length cl)
                  \<and> fst (userRepo_Update e
                            (Some ((updateReq_of i payload (GetUserRole lib r))
                                     \<lparr>user_HashedPassword := h\<rparr>)) d) \<noteq> Some NoFieldsToUpdate
                  \<and> (phone_ok (UserUpdate ((updateReq_of i payload (GetUserRole lib r))
                                             \<lparr>user_HashedPassword := h\<rparr>))
                       \<and> no_fault e
                       \<and> (\<exists>r0 \<in> set (tables d ''users''). row_id r0 = Some (VInt i))
                     \<longrightarrow> fst (userRepo_Update e
                                 (Some ((updateReq_of i payload (GetUserRole lib r))
                                          \<lparr>user_HashedPassword := h\<rparr>)) d) = None
                        \<and> executed (snd (userRepo_Update e
                                 (Some ((updateReq_of i payload (GetUserRole lib r))
                                          \<lparr>user_HashedPassword := h\<rparr>)) d))
                            = executed d @ [UpdateStmt ''users'']
                        \<and> list_all2 (\<lambda>r0 r'. if row_id r0 = Some (VInt i)
                                        then r' ''role'' = Some (VStr (GetUserRole lib r))
                                        else r' = r0)
                             (tables d ''users'')
                             (tables (snd (userRepo_Update e
                                 (Some ((updateReq_of i payload (GetUserRole lib r))
                                          \<lparr>user_HashedPassword := h\<rparr>)) d)) ''users''))"
        by (intro conjI) (rule c rr(1) rr(2) rr(3))+
    qed
    from b r s1 s2 s3 have g14: "fst (updateUser lib e idStr (Some payload) d) \<noteq> Panic
             \<and> (pl_Password payload = None \<or> pl_Password payload = Some [] \<longrightarrow>
                  updateUser lib e idStr (Some payload) d =
                    (respond_update lib
                       (fst (userRepo_Update e
                               (Some (updateReq_of i payload (GetUserRole lib r))) d)),
                     snd (userRepo_Update e
                            (Some (updateReq_of i payload (GetUserRole lib r))) d)))
             \<and> (\<forall>pw hashed. pl_Password payload = Some pw \<and> pw \<noteq> []
                     \<and> GenerateFromPassword lib pw = Inr hashed \<longrightarrow>
                  updateUser lib e idStr (Some payload) d =
                    (respond_update lib
                       (fst (userRepo_Update e
                               (Some ((updateReq_of i payload (GetUserRole lib r))
                                        \<lparr>user_HashedPassword := Some hashed\<rparr>)) d)),
                     snd (userRepo_Update e
                            (Some ((updateReq_of i payload (GetUserRole lib r))
                                     \<lparr>user_HashedPassword := Some hashed\<rparr>)) d)))
             \<and> (\<forall>pw txt. pl_Password payload = Some pw \<and> pw \<noteq> []
                     \<and> GenerateFromPassword lib pw = Inl txt \<longrightarrow>
                  updateUser lib e idStr (Some payload) d = (Response 500, d))"
      by blast
    show "fst (updateUser lib e idStr (Some payload) d) \<noteq> Panic
             \<and> (pl_Password payload = None \<or> pl_Password payload = Some [] \<longrightarrow>
                  updateUser lib e idStr (Some payload) d =
                    (respond_update lib
                       (fst (userRepo_Update e
                               (Some (updateReq_of i payload (GetUserRole lib r))) d)),
                     snd (userRepo_Update e
                            (Some (updateReq_of i payload (GetUserRole lib r))) d)))
             \<and> (\<forall>pw hashed. pl_Password payload = Some pw \<and> pw \<noteq> []
                     \<and> GenerateFromPassword lib pw = Inr hashed \<longrightarrow>
                  updateUser lib e idStr (Some payload) d =
                    (respond_update lib
                       (fst (userRepo_Update e
                               (Some ((updateReq_of i payload (GetUserRole lib r))
                                        \<lparr>user_HashedPassword := Some hashed\<rparr>)) d)),
                     snd (userRepo_Update e
                            (Some ((updateReq_of i payload (GetUserRole lib r))
                                     \<lparr>user_HashedPassword := Some hashed\<rparr>)) d)))
             \<and> (\<forall>pw txt. pl_Password payload = Some pw \<and> pw \<noteq> []
                     \<and> GenerateFromPassword lib pw = Inl txt \<longrightarrow>
                  updateUser lib e idStr (Some payload) d = (Response 500, d))
             \<and> (\<forall>h. user_Role ((updateReq_of i payload (GetUserRole lib r))
                                  \<lparr>user_HashedPassword := h\<rparr>) = Some (GetUserRole lib r)
                  \<and> (\<forall>cl. userRepo_clauses (now e)
                              ((updateReq_of i payload (GetUserRole lib r))
                                 \<lparr>user_HashedPassword := h\<rparr>) = Inr cl
                        \<longrightarrow> map_of cl ''role'' = Some (VStr (GetUserRole lib r))
                            \<and> 2 \<le> length cl)
                  \<and> fst (userRepo_Update e
                            (Some ((updateReq_of i payload (GetUserRole lib r))
                                     \<lparr>user_HashedPassword := h\<rparr>)) d) \<noteq> Some NoFieldsToUpdate
                  \<and> (phone_ok (UserUpdate ((updateReq_of i payload (GetUserRole lib r))
                                             \<lparr>user_HashedPassword := h\<rparr>))
                       \<and> no_fault e
                       \<and> (\<exists>r0 \<in> set (tables d ''users''). row_id r0 = Some (VInt i))
                     \<longrightarrow> fst (userRepo_Update e
                                 (Some ((updateReq_of i payload (GetUserRole lib r))
                                          \<lparr>user_HashedPassword := h\<rparr>)) d) = None
                        \<and> executed (snd (userRepo_Update e
                                 (Some ((updateReq_of i payload (GetUserRole lib r))
                                          \<lparr>user_HashedPassword := h\<rparr>)) d))
                            = executed d @ [UpdateStmt ''users'']
                        \<and> list_all2 (\<lambda>r0 r'. if row_id r0 = Some (VInt i)
                                        then r' ''role'' = Some (VStr (GetUserRole lib r))
                                        else r' = r0)
                             (tables d ''users'')
                             (tables (snd (userRepo_Update e
                                 (Some ((updateReq_of i payload (GetUserRole lib r))
                                          \<lparr>user_HashedPassword := h\<rparr>)) d)) ''users'')))"
      by (insert g14 g5, elim conjE, intro conjI, assumption+)
  qed
  from a' main show ?thesis
    by (rule conjI)
qed

theorem updateUser_role_dereference_witness:
  "strconv_ParseInt ''1'' = Some 1 \<and> (0::int) < 1
   \<and> pl_Role payload_name_only = None
   \<and> updateUser lib0 env0 ''1'' (Some payload_name_only) db_user = (Panic, db_user)
   \<and> pl_Role payload_role_only = Some ''admin'' \<and> pl_Password payload_role_only = None
   \<and> phone_ok (UserUpdate (updateReq_of 1 payload_role_only ''admin''))
   \<and> no_fault env0
   \<and> (\<exists>r0 \<in> set (tables db_user ''users''). row_id r0 = Some (VInt 1))
   \<and> fst (updateUser lib0 env0 ''1'' (Some payload_role_only) db_user) = Response 200
   \<and> executed (snd (updateUser lib0 env0 ''1'' (Some payload_role_only) db_user))
       = [UpdateStmt ''users'']
   \<and> list_all2 (\<lambda>r0 r'. if row_id r0 = Some (VInt 1)
                          then r' ''role'' = Some (VStr ''admin'') else r' = r0)
        (tables db_user ''users'')
        (tables (snd (updateUser lib0 env0 ''1'' (Some payload_role_only) db_user)) ''users'')"
proof -
  let ?R = "updateReq_of 1 payload_role_only ''admin''"
  have h2: "(0::int) < 1" by simp
  have n: "pl_Role payload_name_only = None" by (simp add: payload_name_only_def)
  have r: "pl_Role payload_role_only = Some ''admin''"
    and p: "pl_Password payload_role_only = None"
    by (simp_all add: payload_role_only_def)
  have g: "GetUserRole lib0 ''admin'' = ''admin''" by (simp add: lib0_def)
  have same: "?R\<lparr>user_HashedPassword := None\<rparr> = ?R"
    by (simp add: updateReq_of_def)
  have ph: "phone_ok (UserUpdate ?R)"
    by (simp add: updateReq_of_def payload_role_only_def)
  have nf: "no_fault env0" by (simp add: no_fault_def env0_def)
  have ex: "\<exists>r0 \<in> set (tables db_user ''users''). row_id r0 = Some (VInt 1)"
    by (simp add: db_user_def row_id_def user_row1_def)
  have e0: "executed db_user = []" by (simp add: db_user_def)
  note none = updateUser_role_dereference
      [OF parse_one h2, of payload_name_only lib0 env0 db_user]
  note some = updateUser_role_dereference
      [OF parse_one h2, of payload_role_only lib0 env0 db_user]
  from none n have panic: "updateUser lib0 env0 ''1'' (Some payload_name_only) db_user = (Panic, db_user)"
    by blast
  note body = some [THEN conjunct2, THEN spec, of "''admin''", THEN mp, OF r, unfolded g]
  from body p have sent: "updateUser lib0 env0 ''1'' (Some payload_role_only) db_user =
      (respond_update lib0 (fst (userRepo_Update env0 (Some ?R) db_user)),
       snd (userRepo_Update env0 (Some ?R) db_user))"
    by blast
  note at_none = body [THEN conjunct2, THEN conjunct2, THEN conjunct2, THEN conjunct2,
      THEN spec, of None, unfolded same e0]
  from at_none ph nf ex have upd: "fst (userRepo_Update env0 (Some ?R) db_user) = None
        \<and> executed (snd (userRepo_Update env0 (Some ?R) db_user)) = [UpdateStmt ''users'']
        \<and> list_all2 (\<lambda>r0 r'. if row_id r0 = Some (VInt 1)
                          then r' ''role'' = Some (VStr ''admin'') else r' = r0)
             (tables db_user ''users'')
             (tables (snd (userRepo_Update env0 (Some ?R) db_user)) ''users'')"
    by simp
  show ?thesis
    unfolding sent using parse_one h2 n panic r p ph nf ex upd
    by (simp add: respond_update_def)
qed

text \<open>
  Claim C8 on the code: a \<open>PUT /v1/users/1\<close> whose body holds only a password binds to a
  payload without role; the handler panics on it, gives no 200 response and leaves the
  stored \<open>hashed_password\<close> as it was.
\<close>

theorem updateUser_password_only_panics:
  "updateUser lib0 env0 ''1'' (Some payload_password_only) db_user = (Panic, db_user)
   \<and> fst (updateUser lib0 env0 ''1'' (Some payload_password_only) db_user) \<noteq> Response 200
   \<and> hd (tables (snd (updateUser lib0 env0 ''1'' (Some payload_password_only) db_user)) ''users'')
        ''hashed_password'' = Some (VStr ''h1'')"
  by (simp add: updateUser_def parse_one payload_password_only_def db_user_def user_row1_def)

end
